theory Spec2Isabelle
  imports
    Complex_Main
    "HOL-Library.AList"
    "HOL-Library.Char_ord"
    "HOL-Library.List_Lexorder"
    "HOL-Library.Multiset"
    "HOL-Library.Product_Lexorder"
begin

section \<open>JavaScript values\<close>

subsection \<open>Numbers and their string form\<close>

text \<open>
  The DAO never does arithmetic on a Number: it only prints one (when the client sends
  it to the store, when a key is built) and parses one (\<open>parseInt\<close>, \<open>parseFloat\<close> in
  \<open>remap\<close>). A finite Number is therefore represented the way ECMAScript's
  \<open>Number::toString\<close> reads it: a sign, the significant decimal digits \<open>s\<close> (no leading
  and no trailing zero, so their count \<open>k\<close> is minimal) and the exponent \<open>n\<close>, with value
  \<open>0.s * 10 ^ n\<close>. Zero has no digits; negative zero is identified with zero. The digits
  are kept as the characters \<open>0\<close> .. \<open>9\<close>. A Number is a double, so not every such
  triple is one: which decimals are doubles, and the double nearest to a decimal that
  is none, is the arithmetic of the runtime, taken below as a parameter.
\<close>

datatype jsnum = NaN | Infinity bool | Finite bool string int

definition isDigit :: "char \<Rightarrow> bool" where
  "isDigit c = (c \<in> set ''0123456789'')"

text \<open>The white space that \<open>parseInt\<close> and \<open>parseFloat\<close> skip, as far as it is ASCII.\<close>

definition isWhiteSpace :: "char \<Rightarrow> bool" where
  "isWhiteSpace c = (c \<in> set [CHR '' '', CHR 0x09, CHR 0x0A, CHR 0x0B, CHR 0x0C, CHR 0x0D])"

definition canonical :: "jsnum \<Rightarrow> bool" where
  "canonical x =
     (case x of
        Finite neg ds n \<Rightarrow>
          (if ds = [] then \<not> neg \<and> n = 0
           else list_all isDigit ds \<and> hd ds \<noteq> CHR ''0'' \<and> last ds \<noteq> CHR ''0'')
      | _ \<Rightarrow> True)"

definition digitChar :: "nat \<Rightarrow> char" where
  "digitChar d = ''0123456789'' ! d"

definition digitVal :: "char \<Rightarrow> nat" where
  "digitVal c = of_char c - 48"

function natToString :: "nat \<Rightarrow> string" where
  "natToString n =
     (if n < 10 then [digitChar n] else natToString (n div 10) @ [digitChar (n mod 10)])"
  by pat_completeness auto
termination
  by (relation "measure id") auto

declare natToString.simps [simp del]

definition stringToNat :: "string \<Rightarrow> nat" where
  "stringToNat ds = foldl (\<lambda>a c. 10 * a + digitVal c) 0 ds"

text \<open>\<open>Number::toString\<close> of ECMAScript, radix 10, on the digits \<open>s\<close>, their count \<open>k\<close> and \<open>n\<close>.\<close>

fun numberToString :: "jsnum \<Rightarrow> string" where
  "numberToString NaN = ''NaN''"
| "numberToString (Infinity neg) = (if neg then ''-Infinity'' else ''Infinity'')"
| "numberToString (Finite neg ds n) =
     (if ds = [] then ''0''
      else (if neg then ''-'' else '''') @
        (let k = int (length ds) in
         if k \<le> n \<and> n \<le> 21 then ds @ replicate (nat (n - k)) (CHR ''0'')
         else if 0 < n \<and> n \<le> 21 then take (nat n) ds @ ''.'' @ drop (nat n) ds
         else if -6 < n \<and> n \<le> 0 then ''0.'' @ replicate (nat (- n)) (CHR ''0'') @ ds
         else
           (let e = n - 1;
                es = (if e < 0 then ''-'' else ''+'') @ natToString (nat \<bar>e\<bar>)
            in if k = 1 then ds @ ''e'' @ es
               else [hd ds] @ ''.'' @ tl ds @ ''e'' @ es)))"

text \<open>
  The Number denoted by the digits \<open>ds\<close> with the decimal point \<open>n\<close> places after their
  start: leading zeros move the point, trailing zeros are dropped.
\<close>

definition mkNumber :: "bool \<Rightarrow> string \<Rightarrow> int \<Rightarrow> jsnum" where
  "mkNumber neg ds n =
     (let z = length (takeWhile (\<lambda>c. c = CHR ''0'') ds);
          ds1 = dropWhile (\<lambda>c. c = CHR ''0'') ds;
          ds2 = rev (dropWhile (\<lambda>c. c = CHR ''0'') (rev ds1))
      in if ds2 = [] then Finite False [] 0 else Finite neg ds2 (n - int z))"

fun splitSign :: "string \<Rightarrow> bool \<times> string" where
  "splitSign [] = (False, [])"
| "splitSign (c # cs) =
     (if c = CHR ''-'' then (True, cs)
      else if c = CHR ''+'' then (False, cs)
      else (False, c # cs))"

text \<open>
  The mathematical value that \<open>parseInt(s, 10)\<close> reads: white space, a sign, then the
  longest run of decimal digits.
\<close>

definition parseIntMV :: "string \<Rightarrow> jsnum" where
  "parseIntMV s =
     (case splitSign (dropWhile isWhiteSpace s) of
        (neg, u) \<Rightarrow>
          (let ds = takeWhile isDigit u
           in if ds = [] then NaN else mkNumber neg ds (int (length ds))))"

fun parseExponent :: "string \<Rightarrow> int" where
  "parseExponent [] = 0"
| "parseExponent (c # cs) =
     (if c = CHR ''e'' \<or> c = CHR ''E'' then
        (case splitSign cs of
           (eneg, r) \<Rightarrow>
             (let eds = takeWhile isDigit r
              in if eds = [] then 0
                 else if eneg then - int (stringToNat eds) else int (stringToNat eds)))
      else 0)"

fun fractionPart :: "string \<Rightarrow> string \<times> string" where
  "fractionPart [] = ([], [])"
| "fractionPart (c # cs) =
     (if c = CHR ''.'' then (takeWhile isDigit cs, dropWhile isDigit cs) else ([], c # cs))"

text \<open>
  The mathematical value that \<open>parseFloat(s)\<close> reads: white space, a sign, then the
  longest prefix that is a decimal literal (\<open>Infinity\<close>, or digits with an optional
  fraction and an optional exponent).
\<close>

definition parseFloatMV :: "string \<Rightarrow> jsnum" where
  "parseFloatMV s =
     (case splitSign (dropWhile isWhiteSpace s) of
        (neg, u) \<Rightarrow>
          if take 8 u = ''Infinity'' then Infinity neg
          else
            (let ip = takeWhile isDigit u in
             case fractionPart (dropWhile isDigit u) of
               (fp, r) \<Rightarrow>
                 if ip = [] \<and> fp = [] then NaN
                 else mkNumber neg (ip @ fp) (int (length ip) + parseExponent r)))"

text \<open>
  The value read becomes a Number: a decimal other than zero is rounded to a double by
  \<open>toDouble\<close>, the rounding of the runtime (to the nearest double, to an infinity beyond
  the largest one, to zero below the smallest one, the result again in the digits that
  \<open>Number::toString\<close> prints). The Numbers of the runtime are the values that the
  rounding leaves as they are.
\<close>

definition roundNumber :: "(jsnum \<Rightarrow> jsnum) \<Rightarrow> jsnum \<Rightarrow> jsnum" where
  "roundNumber toDouble x =
     (case x of Finite neg ds n \<Rightarrow> (if ds = [] then x else toDouble x) | _ \<Rightarrow> x)"

definition parseInt :: "(jsnum \<Rightarrow> jsnum) \<Rightarrow> string \<Rightarrow> jsnum" where
  "parseInt toDouble s = roundNumber toDouble (parseIntMV s)"

definition parseFloat :: "(jsnum \<Rightarrow> jsnum) \<Rightarrow> string \<Rightarrow> jsnum" where
  "parseFloat toDouble s = roundNumber toDouble (parseFloatMV s)"

definition isNumber :: "(jsnum \<Rightarrow> jsnum) \<Rightarrow> jsnum \<Rightarrow> bool" where
  "isNumber toDouble x = (canonical x \<and> roundNumber toDouble x = x)"

text \<open>An integer that \<open>Number::toString\<close> prints in plain digits: magnitude below \<open>10 ^ 21\<close>.\<close>

definition plainInteger :: "jsnum \<Rightarrow> bool" where
  "plainInteger x =
     (case x of Finite neg ds n \<Rightarrow> int (length ds) \<le> n \<and> n \<le> 21 | _ \<Rightarrow> False)"

subsection \<open>Values and objects\<close>

text \<open>
  An object is a finite map from its own property names to values: \<open>{ ...o }\<close> is the
  map itself, an assignment is a map update, \<open>delete\<close> removes the name. Functions and
  arrays never occur in a site or in a hash.
\<close>

datatype jsval =
    Undefined
  | Null
  | Num jsnum
  | Str string
  | Obj "string \<Rightarrow> jsval option"

type_synonym obj = "string \<Rightarrow> jsval option"

datatype jserror =
    TypeError
  | Error string
  | ReplyError string

fun toString :: "jsval \<Rightarrow> string" where
  "toString Undefined = ''undefined''"
| "toString Null = ''null''"
| "toString (Num x) = numberToString x"
| "toString (Str s) = s"
| "toString (Obj _) = ''[object Object]''"

text \<open>
  \<open>ob.hasOwnProperty(k)\<close> is a call of the property \<open>hasOwnProperty\<close> of \<open>ob\<close>. An
  object without an own property of that name inherits the method of
  \<open>Object.prototype\<close>, which tells whether \<open>k\<close> is an own property. An own property of
  that name hides the method; its value is no function, and the call throws.
\<close>

definition hasOwnProperty :: "obj \<Rightarrow> string \<Rightarrow> jserror + bool" where
  "hasOwnProperty ob k =
     (if ob ''hasOwnProperty'' \<noteq> None then Inl TypeError else Inr (ob k \<noteq> None))"

text \<open>\<open>ob.k\<close> on an object: \<open>undefined\<close> when the name is not bound.\<close>

definition getProp :: "obj \<Rightarrow> string \<Rightarrow> jsval" where
  "getProp ob k = (case ob k of None \<Rightarrow> Undefined | Some v \<Rightarrow> v)"

text \<open>\<open>v.k\<close> on any value: reading a property of \<open>null\<close> or \<open>undefined\<close> throws.\<close>

fun getMember :: "jsval \<Rightarrow> string \<Rightarrow> jserror + jsval" where
  "getMember Undefined k = Inl TypeError"
| "getMember Null k = Inl TypeError"
| "getMember (Obj ob) k = Inr (getProp ob k)"
| "getMember (Num _) k = Inr Undefined"
| "getMember (Str _) k = Inr Undefined"

text \<open>\<open>String.prototype.toLowerCase\<close> on the ASCII letters.\<close>

definition toLowerCase :: "string \<Rightarrow> string" where
  "toLowerCase s =
     map (\<lambda>c. case map_of (zip ''ABCDEFGHIJKLMNOPQRSTUVWXYZ'' ''abcdefghijklmnopqrstuvwxyz'') c of
                 None \<Rightarrow> c | Some l \<Rightarrow> l) s"

section \<open>The site record codec\<close>

definition capacityThreshold :: real where
  "capacityThreshold = 0.2"

text \<open>
  \<open>remap\<close>, the decoder, with the rounding of the runtime. Its argument is a reply of
  \<open>HGETALL\<close>: an object, or \<open>null\<close> (\<open>None\<close>) when there is no such hash. On \<open>null\<close> the
  spread gives an empty object and the read of \<open>siteHash.id\<close> then throws. The test for
  the coordinate calls \<open>siteHash.hasOwnProperty\<close>, for \<open>lat\<close> first and for \<open>lng\<close> only
  when \<open>lat\<close> is there.
\<close>

fun remap :: "(jsnum \<Rightarrow> jsnum) \<Rightarrow> obj option \<Rightarrow> jserror + obj" where
  "remap toDouble None = Inl TypeError"
| "remap toDouble (Some siteHash) =
     (let remappedSiteHash = siteHash;
          remappedSiteHash = remappedSiteHash
            (''id'' \<mapsto> Num (parseInt toDouble (toString (getProp siteHash ''id''))));
          remappedSiteHash = remappedSiteHash
            (''panels'' \<mapsto> Num (parseInt toDouble (toString (getProp siteHash ''panels''))));
          remappedSiteHash = remappedSiteHash
            (''capacity'' \<mapsto> Num (parseFloat toDouble (toString (getProp siteHash ''capacity''))))
      in case hasOwnProperty siteHash ''lat'' of
           Inl e \<Rightarrow> Inl e
         | Inr hasLat \<Rightarrow>
             (case (if hasLat then hasOwnProperty siteHash ''lng'' else Inr False) of
                Inl e \<Rightarrow> Inl e
              | Inr both \<Rightarrow>
                  if both then
                    Inr ((remappedSiteHash
                      (''coordinate'' \<mapsto> Obj
                         [''lat'' \<mapsto> Num (parseFloat toDouble (toString (getProp siteHash ''lat''))),
                          ''lng'' \<mapsto> Num (parseFloat toDouble (toString (getProp siteHash ''lng'')))]))
                      (''lat'' := None, ''lng'' := None))
                  else Inr remappedSiteHash))"

text \<open>\<open>flatten\<close>, the encoder.\<close>

definition flatten :: "obj \<Rightarrow> jserror + obj" where
  "flatten site =
     (let flattenedSite = site in
      case hasOwnProperty flattenedSite ''coordinate'' of
        Inl e \<Rightarrow> Inl e
      | Inr hasCoordinate \<Rightarrow>
          if hasCoordinate then
            (case getMember (getProp flattenedSite ''coordinate'') ''lat'' of
               Inl e \<Rightarrow> Inl e
             | Inr vlat \<Rightarrow>
                 (case getMember (getProp flattenedSite ''coordinate'') ''lng'' of
                    Inl e \<Rightarrow> Inl e
                  | Inr vlng \<Rightarrow>
                      Inr ((flattenedSite(''lat'' \<mapsto> vlat, ''lng'' \<mapsto> vlng))(''coordinate'' := None))))
          else Inr flattenedSite)"

section \<open>The store\<close>

text \<open>
  A key holds a hash (field names to strings) or a sorted set (members with a score,
  listed once each; the geo index is a sorted set whose scores encode positions). A key
  may carry an expiration in seconds; the passing of time is not modelled. String, list
  and plain set values do not occur. Scores are reals: the store compares and adds
  them, and the DAO never reads one.
\<close>

datatype rvalue =
    RHash "string \<Rightarrow> string option"
  | RZSet "(string \<times> real) list"

record store =
  vals :: "string \<Rightarrow> rvalue option"
  ttl :: "string \<Rightarrow> nat option"

datatype command =
    HMSET string obj
  | HGETALL string
  | GEOADD string string string string
  | ZRANGE string int int
  | GEORADIUS string string string string string
  | GEORADIUS_STORE string string string string string string
  | ZINTERSTORE string string string real real
  | EXPIRE string nat
  | ZRANGEBYSCORE string real

datatype reply =
    NullReply
  | StatusReply string
  | IntegerReply int
  | ArrayReply "string list"
  | ObjectReply obj

text \<open>
  What the DAO takes from the runtime, the store and its client without this repository
  defining it: the rounding of a decimal to a double, the geohash score of a longitude
  and latitude as sent (\<open>None\<close> when the store rejects the pair), the radius test of a
  query as sent (\<open>None\<close> when the store rejects the arguments, otherwise the predicate
  on the score of a member), and the enumerable properties of the error object the
  client puts into the results of a batch.
\<close>

record env =
  toDouble :: "jsnum \<Rightarrow> jsnum"
  geoEncode :: "string \<Rightarrow> string \<Rightarrow> real option"
  georadiusTest :: "string \<Rightarrow> string \<Rightarrow> string \<Rightarrow> string \<Rightarrow> (real \<Rightarrow> bool) option"
  errorObject :: "jserror \<Rightarrow> obj"

text \<open>Members of a sorted set in its order: by score, then by member.\<close>

definition zsetOrder :: "(string \<times> real) list \<Rightarrow> (string \<times> real) list" where
  "zsetOrder z = sort_key (\<lambda>(m, s). (s, m)) z"

text \<open>The index arithmetic of a range by rank: negative indexes count from the end.\<close>

definition rangeSlice :: "'a list \<Rightarrow> int \<Rightarrow> int \<Rightarrow> 'a list" where
  "rangeSlice xs start stop =
     (let llen = int (length xs);
          start1 = (if start < 0 then llen + start else start);
          stop1 = (if stop < 0 then llen + stop else stop);
          start2 = (if start1 < 0 then 0 else start1)
      in if start2 > stop1 \<or> start2 \<ge> llen then []
         else
           (let stop2 = (if stop1 \<ge> llen then llen - 1 else stop1)
            in take (nat (stop2 - start2 + 1)) (drop (nat start2) xs)))"

text \<open>Storing a computed sorted set replaces the key and its expiration; an empty result removes the key.\<close>

definition storeZSet :: "store \<Rightarrow> string \<Rightarrow> (string \<times> real) list \<Rightarrow> store" where
  "storeZSet st dest z =
     (if z = [] then st\<lparr>vals := (vals st)(dest := None), ttl := (ttl st)(dest := None)\<rparr>
      else st\<lparr>vals := (vals st)(dest \<mapsto> RZSet z), ttl := (ttl st)(dest := None)\<rparr>)"

text \<open>A source of an intersection: a missing key is an empty set, a hash is a type error.\<close>

definition loadZSet :: "store \<Rightarrow> string \<Rightarrow> (string \<times> real) list option" where
  "loadZSet st k =
     (case vals st k of
        None \<Rightarrow> Some []
      | Some (RZSet z) \<Rightarrow> Some z
      | Some (RHash h) \<Rightarrow> None)"

definition intersectWeighted ::
  "(string \<times> real) list \<Rightarrow> (string \<times> real) list \<Rightarrow> real \<Rightarrow> real \<Rightarrow> (string \<times> real) list" where
  "intersectWeighted z1 z2 w1 w2 =
     List.map_filter
       (\<lambda>(m, s1). case map_of z2 m of None \<Rightarrow> None | Some s2 \<Rightarrow> Some (m, w1 * s1 + w2 * s2)) z1"

text \<open>
  The object the client makes of a hash: it assigns the fields one by one to an empty
  object, every value a string. The assignment to \<open>__proto__\<close> is the one that adds no
  property: it calls the setter of \<open>Object.prototype\<close>, which ignores a string.
\<close>

definition hashObject :: "(string \<Rightarrow> string option) \<Rightarrow> obj" where
  "hashObject h = (map_option Str \<circ> h)(''__proto__'' := None)"

text \<open>
  One command on the store: the reply, or the error reply, and the store after it.
  \<open>HMSET\<close> carries the object given to the client, which sends every value as a
  string. \<open>ZINTERSTORE dest 2 k1 k2 WEIGHTS w1 w2\<close> is written with its two keys and
  weights, \<open>ZRANGEBYSCORE key min +inf\<close> with its lower bound. A radius query on a
  missing key replies with nothing before it reads its arguments or its destination.
  The store fixes no order for the reply of a radius query without a sort option; the
  model lists the members in the order of the sorted set.
\<close>

fun execCommand :: "env \<Rightarrow> command \<Rightarrow> store \<Rightarrow> (jserror + reply) \<times> store" where
  "execCommand en (HMSET key ob) st =
     (if ob = Map.empty then (Inl (ReplyError ''ERR''), st)
      else
        (case vals st key of
           None \<Rightarrow>
             (Inr (StatusReply ''OK''),
              st\<lparr>vals := (vals st)(key \<mapsto> RHash (map_option toString \<circ> ob))\<rparr>)
         | Some (RHash h) \<Rightarrow>
             (Inr (StatusReply ''OK''),
              st\<lparr>vals := (vals st)(key \<mapsto> RHash (h ++ (map_option toString \<circ> ob)))\<rparr>)
         | Some (RZSet z) \<Rightarrow> (Inl (ReplyError ''WRONGTYPE''), st)))"
| "execCommand en (HGETALL key) st =
     (case vals st key of
        None \<Rightarrow> (Inr NullReply, st)
      | Some (RHash h) \<Rightarrow>
          (if h = Map.empty then (Inr NullReply, st)
           else (Inr (ObjectReply (hashObject h)), st))
      | Some (RZSet z) \<Rightarrow> (Inl (ReplyError ''WRONGTYPE''), st))"
| "execCommand en (GEOADD key lng lat member) st =
     (case geoEncode en lng lat of
        None \<Rightarrow> (Inl (ReplyError ''ERR''), st)
      | Some score \<Rightarrow>
          (case vals st key of
             None \<Rightarrow>
               (Inr (IntegerReply 1), st\<lparr>vals := (vals st)(key \<mapsto> RZSet [(member, score)])\<rparr>)
           | Some (RZSet z) \<Rightarrow>
               (Inr (IntegerReply (if map_of z member = None then 1 else 0)),
                st\<lparr>vals := (vals st)(key \<mapsto> RZSet (AList.update member score z))\<rparr>)
           | Some (RHash h) \<Rightarrow> (Inl (ReplyError ''WRONGTYPE''), st)))"
| "execCommand en (ZRANGE key start stop) st =
     (case vals st key of
        None \<Rightarrow> (Inr (ArrayReply []), st)
      | Some (RZSet z) \<Rightarrow> (Inr (ArrayReply (map fst (rangeSlice (zsetOrder z) start stop))), st)
      | Some (RHash h) \<Rightarrow> (Inl (ReplyError ''WRONGTYPE''), st))"
| "execCommand en (GEORADIUS key lng lat radius unit) st =
     (case vals st key of
        None \<Rightarrow> (Inr (ArrayReply []), st)
      | Some (RHash h) \<Rightarrow> (Inl (ReplyError ''WRONGTYPE''), st)
      | Some (RZSet z) \<Rightarrow>
          (case georadiusTest en lng lat radius unit of
             None \<Rightarrow> (Inl (ReplyError ''ERR''), st)
           | Some inside \<Rightarrow>
               (Inr (ArrayReply (map fst (filter (\<lambda>(m, g). inside g) (zsetOrder z)))), st)))"
| "execCommand en (GEORADIUS_STORE key lng lat radius unit dest) st =
     (case vals st key of
        None \<Rightarrow> (Inr (ArrayReply []), st)
      | Some (RHash h) \<Rightarrow> (Inl (ReplyError ''WRONGTYPE''), st)
      | Some (RZSet z) \<Rightarrow>
          (case georadiusTest en lng lat radius unit of
             None \<Rightarrow> (Inl (ReplyError ''ERR''), st)
           | Some inside \<Rightarrow>
               (let found = filter (\<lambda>(m, g). inside g) z
                in (Inr (IntegerReply (int (length found))), storeZSet st dest found))))"
| "execCommand en (ZINTERSTORE dest k1 k2 w1 w2) st =
     (case loadZSet st k1 of
        None \<Rightarrow> (Inl (ReplyError ''WRONGTYPE''), st)
      | Some z1 \<Rightarrow>
          (case loadZSet st k2 of
             None \<Rightarrow> (Inl (ReplyError ''WRONGTYPE''), st)
           | Some z2 \<Rightarrow>
               (let found = intersectWeighted z1 z2 w1 w2
                in (Inr (IntegerReply (int (length found))), storeZSet st dest found))))"
| "execCommand en (EXPIRE key seconds) st =
     (if vals st key = None then (Inr (IntegerReply 0), st)
      else (Inr (IntegerReply 1), st\<lparr>ttl := (ttl st)(key \<mapsto> seconds)\<rparr>))"
| "execCommand en (ZRANGEBYSCORE key smin) st =
     (case vals st key of
        None \<Rightarrow> (Inr (ArrayReply []), st)
      | Some (RZSet z) \<Rightarrow>
          (Inr (ArrayReply (map fst (filter (\<lambda>(m, s). smin \<le> s) (zsetOrder z)))), st)
      | Some (RHash h) \<Rightarrow> (Inl (ReplyError ''WRONGTYPE''), st))"

text \<open>
  A batch runs its commands in order and collects every reply; an error reply takes its
  place in the results and does not stop the batch.
\<close>

fun execBatch :: "env \<Rightarrow> command list \<Rightarrow> store \<Rightarrow> (jserror + reply) list \<times> store" where
  "execBatch en [] st = ([], st)"
| "execBatch en (c # cs) st =
     (case execCommand en c st of
        (r, st1) \<Rightarrow> (case execBatch en cs st1 of (rs, st2) \<Rightarrow> (r # rs, st2)))"

text \<open>What the client hands to the caller: the hash as an object or \<open>null\<close>, the members as an array.\<close>

fun replyToObject :: "reply \<Rightarrow> obj option" where
  "replyToObject (ObjectReply h) = Some h"
| "replyToObject _ = None"

fun replyToArray :: "reply \<Rightarrow> string list" where
  "replyToArray (ArrayReply ms) = ms"
| "replyToArray _ = []"

section \<open>The site DAO\<close>

text \<open>
  The key generator is a module of its own, taken here as a parameter: its four
  functions as the DAO calls them. The key of a site is built from the identifier it is given, which is
  a Number on \<open>insert\<close> and \<open>findById\<close> and a member string of the geo index on the other
  paths; a key is a string, so the generator sees the identifier in its string form.
  A temporary key is drawn from the generator's own state \<open>'g\<close>.
\<close>

record 'g keyGenerator =
  getSiteHashKey :: "string \<Rightarrow> string"
  getSiteGeoKey :: string
  getCapacityRankingKey :: string
  getTemporaryKey :: "'g \<Rightarrow> string \<times> 'g"

definition insert ::
  "env \<Rightarrow> 'g keyGenerator \<Rightarrow> obj \<Rightarrow> store \<Rightarrow> (jserror + string) \<times> store" where
  "insert en kg site st =
     (let siteHashKey = getSiteHashKey kg (toString (getProp site ''id'')) in
      case flatten site of
        Inl e \<Rightarrow> (Inl e, st)
      | Inr flat \<Rightarrow>
          (case execCommand en (HMSET siteHashKey flat) st of
             (Inl e, st1) \<Rightarrow> (Inl e, st1)
           | (Inr _, st1) \<Rightarrow>
               (case hasOwnProperty site ''coordinate'' of
                  Inl e \<Rightarrow> (Inl e, st1)
                | Inr hasCoordinate \<Rightarrow>
                    if \<not> hasCoordinate then
                      (Inl (Error ''Coordinate required for site geo insert!''), st1)
                    else
                      (case getMember (getProp site ''coordinate'') ''lng'' of
                         Inl e \<Rightarrow> (Inl e, st1)
                       | Inr vlng \<Rightarrow>
                           (case getMember (getProp site ''coordinate'') ''lat'' of
                              Inl e \<Rightarrow> (Inl e, st1)
                            | Inr vlat \<Rightarrow>
                                (case execCommand en
                                        (GEOADD (getSiteGeoKey kg) (toString vlng) (toString vlat)
                                           (toString (getProp site ''id''))) st1 of
                                   (Inl e, st2) \<Rightarrow> (Inl e, st2)
                                 | (Inr _, st2) \<Rightarrow> (Inr siteHashKey, st2)))))))"

definition findById ::
  "env \<Rightarrow> 'g keyGenerator \<Rightarrow> jsval \<Rightarrow> store \<Rightarrow> (jserror + jsval) \<times> store" where
  "findById en kg ident st =
     (let siteKey = getSiteHashKey kg (toString ident) in
      case execCommand en (HGETALL siteKey) st of
        (Inl e, st1) \<Rightarrow> (Inl e, st1)
      | (Inr r, st1) \<Rightarrow>
          (let siteHash = replyToObject r in
           if siteHash = None then (Inr Null, st1)
           else (case remap (toDouble en) siteHash of Inl e \<Rightarrow> (Inl e, st1) | Inr s \<Rightarrow> (Inr (Obj s), st1))))"

text \<open>
  The second loop of \<open>findAll\<close>, over the results of the batch. \<open>null\<close> is skipped; an
  error object is not \<open>null\<close>, so it is decoded like a hash.
\<close>

fun findAll_results :: "env \<Rightarrow> (jserror + reply) list \<Rightarrow> obj list \<Rightarrow> jserror + obj list" where
  "findAll_results en [] sites = Inr sites"
| "findAll_results en (Inl err # results) sites =
     (case remap (toDouble en) (Some (errorObject en err)) of
        Inl e \<Rightarrow> Inl e
      | Inr s \<Rightarrow> findAll_results en results (sites @ [s]))"
| "findAll_results en (Inr r # results) sites =
     (let siteHash = replyToObject r in
      if siteHash = None then findAll_results en results sites
      else (case remap (toDouble en) siteHash of
              Inl e \<Rightarrow> Inl e
            | Inr s \<Rightarrow> findAll_results en results (sites @ [s])))"

definition findAll ::
  "env \<Rightarrow> 'g keyGenerator \<Rightarrow> store \<Rightarrow> (jserror + obj list) \<times> store" where
  "findAll en kg st =
     (case execCommand en (ZRANGE (getSiteGeoKey kg) 0 (- 1)) st of
        (Inl e, st1) \<Rightarrow> (Inl e, st1)
      | (Inr r, st1) \<Rightarrow>
          (let siteIds = replyToArray r;
               pipeline = map (\<lambda>siteId. HGETALL (getSiteHashKey kg siteId)) siteIds
           in case execBatch en pipeline st1 of
                (results, st2) \<Rightarrow> (findAll_results en results [], st2)))"

fun findByGeo_loop ::
  "env \<Rightarrow> 'g keyGenerator \<Rightarrow> string list \<Rightarrow> obj list \<Rightarrow> store \<Rightarrow> (jserror + obj list) \<times> store" where
  "findByGeo_loop en kg [] sites st = (Inr sites, st)"
| "findByGeo_loop en kg (siteId # siteIds) sites st =
     (case execCommand en (HGETALL (getSiteHashKey kg siteId)) st of
        (Inl e, st1) \<Rightarrow> (Inl e, st1)
      | (Inr r, st1) \<Rightarrow>
          (let siteHash = replyToObject r in
           if siteHash = None then findByGeo_loop en kg siteIds sites st1
           else (case remap (toDouble en) siteHash of
                   Inl e \<Rightarrow> (Inl e, st1)
                 | Inr s \<Rightarrow> findByGeo_loop en kg siteIds (sites @ [s]) st1)))"

definition findByGeo ::
  "env \<Rightarrow> 'g keyGenerator \<Rightarrow> jsval \<Rightarrow> jsval \<Rightarrow> jsval \<Rightarrow> string \<Rightarrow> store
     \<Rightarrow> (jserror + obj list) \<times> store" where
  "findByGeo en kg lat lng radius radiusUnit st =
     (case execCommand en
             (GEORADIUS (getSiteGeoKey kg) (toString lng) (toString lat) (toString radius)
                (toLowerCase radiusUnit)) st of
        (Inl e, st1) \<Rightarrow> (Inl e, st1)
      | (Inr r, st1) \<Rightarrow> findByGeo_loop en kg (replyToArray r) [] st1)"

fun findByGeoWithExcessCapacity_loop ::
  "env \<Rightarrow> 'g keyGenerator \<Rightarrow> string list \<Rightarrow> obj list \<Rightarrow> store \<Rightarrow> (jserror + obj list) \<times> store" where
  "findByGeoWithExcessCapacity_loop en kg [] sites st = (Inr sites, st)"
| "findByGeoWithExcessCapacity_loop en kg (siteId # siteIds) sites st =
     (case execCommand en (HGETALL (getSiteHashKey kg siteId)) st of
        (Inl e, st1) \<Rightarrow> (Inl e, st1)
      | (Inr r, st1) \<Rightarrow>
          (let siteHash = replyToObject r in
           if siteHash = None then findByGeoWithExcessCapacity_loop en kg siteIds sites st1
           else (case remap (toDouble en) siteHash of
                   Inl e \<Rightarrow> (Inl e, st1)
                 | Inr s \<Rightarrow> findByGeoWithExcessCapacity_loop en kg siteIds (sites @ [s]) st1)))"

text \<open>The four commands of the batch of \<open>findByGeoWithExcessCapacity\<close>, in the order they are queued.\<close>

definition setOperationsPipeline ::
  "'g keyGenerator \<Rightarrow> jsval \<Rightarrow> jsval \<Rightarrow> jsval \<Rightarrow> string \<Rightarrow> string \<Rightarrow> string \<Rightarrow> command list" where
  "setOperationsPipeline kg lat lng radius radiusUnit
       sitesInRadiusSortedSetKey sitesInRadiusCapacitySortedSetKey =
     [GEORADIUS_STORE (getSiteGeoKey kg) (toString lng) (toString lat) (toString radius)
        (toLowerCase radiusUnit) sitesInRadiusSortedSetKey,
      ZINTERSTORE sitesInRadiusCapacitySortedSetKey sitesInRadiusSortedSetKey
        (getCapacityRankingKey kg) 0 1,
      EXPIRE sitesInRadiusSortedSetKey 30,
      EXPIRE sitesInRadiusCapacitySortedSetKey 30]"

definition findByGeoWithExcessCapacity ::
  "env \<Rightarrow> 'g keyGenerator \<Rightarrow> jsval \<Rightarrow> jsval \<Rightarrow> jsval \<Rightarrow> string \<Rightarrow> store \<times> 'g
     \<Rightarrow> (jserror + obj list) \<times> store \<times> 'g" where
  "findByGeoWithExcessCapacity en kg lat lng radius radiusUnit stg =
     (case stg of (st, g) \<Rightarrow>
      case getTemporaryKey kg g of (sitesInRadiusSortedSetKey, g1) \<Rightarrow>
      case getTemporaryKey kg g1 of (sitesInRadiusCapacitySortedSetKey, g2) \<Rightarrow>
      case execBatch en
             (setOperationsPipeline kg lat lng radius radiusUnit
                sitesInRadiusSortedSetKey sitesInRadiusCapacitySortedSetKey) st of
        (results, st1) \<Rightarrow>
          (case execCommand en (ZRANGEBYSCORE sitesInRadiusCapacitySortedSetKey capacityThreshold) st1 of
             (Inl e, st2) \<Rightarrow> (Inl e, st2, g2)
           | (Inr r, st2) \<Rightarrow>
               (case findByGeoWithExcessCapacity_loop en kg (replyToArray r) [] st2 of
                  (res, st3) \<Rightarrow> (res, st3, g2))))"

section \<open>Views of the store and a sequence of inserts\<close>

text \<open>
  What \<open>HGETALL\<close> gives for a key as the DAO sees it: the hash as an object, or nothing
  when there is no hash. In the results of a batch the reply for a key that holds a
  sorted set is the client's error object.
\<close>

definition storedSite :: "store \<Rightarrow> string \<Rightarrow> obj option" where
  "storedSite st k =
     (case vals st k of
        Some (RHash h) \<Rightarrow> if h = Map.empty then None else Some (hashObject h)
      | _ \<Rightarrow> None)"


text \<open>The store with no key.\<close>

definition emptyStore :: store where
  "emptyStore = \<lparr>vals = Map.empty, ttl = Map.empty\<rparr>"

text \<open>The identifier of a site as the store sees it, and the site as \<open>insert\<close> stores it and \<open>remap\<close> reads it back.\<close>

definition siteId :: "obj \<Rightarrow> string" where
  "siteId site = toString (getProp site ''id'')"



section \<open>Example values\<close>

text \<open>
  A key generator in the style of the DAO's own (a fixed name for each structure, the
  identifier appended to the name of a site hash, a counter for temporary keys), a
  runtime that rounds nothing (as a double does with a decimal of at most 15 digits,
  and the numbers of the examples are of that kind), a toy geo engine on one axis (the
  score of a position is the digits of its longitude, the radius test compares scores),
  and the site \<open>{id: 1, panels: 12, capacity: 4.5, coordinate: {lat: 37.7,
  lng: -122.4}}\<close> with its hash. The theorems below hold for every key generator and
  engine; these values instantiate them.
\<close>

definition exampleKeys :: "nat keyGenerator" where
  "exampleKeys =
     \<lparr>getSiteHashKey = (\<lambda>ident. ''sites:info:'' @ ident),
      getSiteGeoKey = ''sites:geo'',
      getCapacityRankingKey = ''sites:capacity:ranking'',
      getTemporaryKey = (\<lambda>n. (''tmp:'' @ natToString n, Suc n))\<rparr>"

definition exampleEnv :: env where
  "exampleEnv =
     \<lparr>toDouble = (\<lambda>x. x),
      geoEncode = (\<lambda>lng lat.
        if parseFloatMV lng = NaN \<or> parseFloatMV lat = NaN then None
        else Some (real (stringToNat (filter isDigit lng)))),
      georadiusTest = (\<lambda>lng lat radius unit.
        if unit \<in> set [''m'', ''km'', ''ft'', ''mi''] then
          Some (\<lambda>g. \<bar>g - real (stringToNat (filter isDigit lng))\<bar>
                       \<le> real (stringToNat (filter isDigit radius)))
        else None),
      errorObject = (\<lambda>e. Map.empty)\<rparr>"

definition exampleSite :: obj where
  "exampleSite =
     [''id'' \<mapsto> Num (Finite False ''1'' 1),
      ''panels'' \<mapsto> Num (Finite False ''12'' 2),
      ''capacity'' \<mapsto> Num (Finite False ''45'' 1),
      ''coordinate'' \<mapsto> Obj
         [''lat'' \<mapsto> Num (Finite False ''377'' 2),
          ''lng'' \<mapsto> Num (Finite True ''1224'' 3)]]"

definition exampleHash :: "string \<Rightarrow> string option" where
  "exampleHash =
     [''id'' \<mapsto> ''1'', ''panels'' \<mapsto> ''12'', ''capacity'' \<mapsto> ''4.5'',
      ''lat'' \<mapsto> ''37.7'', ''lng'' \<mapsto> ''-122.4'']"

definition exampleStore :: store where
  "exampleStore = \<lparr>vals = [''sites:info:1'' \<mapsto> RHash exampleHash], ttl = Map.empty\<rparr>"

definition siteWithoutCoordinate :: obj where
  "siteWithoutCoordinate =
     [''id'' \<mapsto> Num (Finite False ''1'' 1),
      ''panels'' \<mapsto> Num (Finite False ''12'' 2),
      ''capacity'' \<mapsto> Num (Finite False ''45'' 1)]"

text \<open>The example site with the identifier \<open>1e21\<close>, an integer that a double holds exactly.\<close>

definition bigIdSite :: obj where
  "bigIdSite = exampleSite(''id'' \<mapsto> Num (Finite False ''1'' 22))"

text \<open>The example site with \<open>13\<close> panels.\<close>

definition exampleSiteMorePanels :: obj where
  "exampleSiteMorePanels = exampleSite(''panels'' \<mapsto> Num (Finite False ''13'' 2))"

text \<open>
  A store with three sites in the geo index and in the capacity ranking: site \<open>1\<close> near
  the example position with score \<open>0.5\<close>, site \<open>2\<close> near it with score \<open>0.1\<close>, site \<open>3\<close>
  far from it with score \<open>0.9\<close>. Only site \<open>1\<close> has a hash.
\<close>

definition exampleGeoStore :: store where
  "exampleGeoStore =
     \<lparr>vals =
        [''sites:info:1'' \<mapsto> RHash exampleHash,
         ''sites:geo'' \<mapsto> RZSet [(''1'', 1224), (''2'', 1225), (''3'', 1300)],
         ''sites:capacity:ranking'' \<mapsto> RZSet [(''1'', 0.5), (''2'', 0.1), (''3'', 0.9)]],
      ttl = Map.empty\<rparr>"



text \<open>The hashes of site \<open>2\<close> and of a third site, \<open>{id: 3, panels: 20, capacity: 6, coordinate: {lat: 40.1, lng: -130}}\<close>.\<close>

definition exampleHash2 :: "string \<Rightarrow> string option" where
  "exampleHash2 =
     [''id'' \<mapsto> ''2'', ''panels'' \<mapsto> ''8'', ''capacity'' \<mapsto> ''3'',
      ''lat'' \<mapsto> ''37.8'', ''lng'' \<mapsto> ''-122.5'']"

definition exampleHash3 :: "string \<Rightarrow> string option" where
  "exampleHash3 =
     [''id'' \<mapsto> ''3'', ''panels'' \<mapsto> ''20'', ''capacity'' \<mapsto> ''6'',
      ''lat'' \<mapsto> ''40.1'', ''lng'' \<mapsto> ''-130'']"


text \<open>
  A store with the three sites, each with its hash: site \<open>1\<close> near the example position
  with a ranking score of exactly \<open>0.2\<close>, site \<open>2\<close> near it with score \<open>0.1\<close>, site \<open>3\<close>
  far from it with score \<open>0.9\<close>.
\<close>

definition exampleCapacityStore :: store where
  "exampleCapacityStore =
     \<lparr>vals =
        [''sites:info:1'' \<mapsto> RHash exampleHash,
         ''sites:info:2'' \<mapsto> RHash exampleHash2,
         ''sites:info:3'' \<mapsto> RHash exampleHash3,
         ''sites:geo'' \<mapsto> RZSet [(''1'', 1224), (''2'', 1225), (''3'', 1300)],
         ''sites:capacity:ranking'' \<mapsto> RZSet [(''1'', 0.2), (''2'', 0.1), (''3'', 0.9)]],
      ttl = Map.empty\<rparr>"

text \<open>
  A hash with a field named \<open>hasOwnProperty\<close>, and a store that holds it as the hash of
  site \<open>5\<close>, with the site in the geo index at the example position and in the capacity
  ranking with score \<open>0.5\<close>.
\<close>

definition shadowedHash :: "string \<Rightarrow> string option" where
  "shadowedHash = [''id'' \<mapsto> ''5'', ''lat'' \<mapsto> ''37.7'', ''hasOwnProperty'' \<mapsto> ''x'']"

definition shadowedStore :: store where
  "shadowedStore =
     \<lparr>vals =
        [''sites:info:5'' \<mapsto> RHash shadowedHash,
         ''sites:geo'' \<mapsto> RZSet [(''5'', 1224)],
         ''sites:capacity:ranking'' \<mapsto> RZSet [(''5'', 0.5)]],
      ttl = Map.empty\<rparr>"

text \<open>The example site with an own property named \<open>hasOwnProperty\<close>.\<close>

definition shadowedSite :: obj where
  "shadowedSite = exampleSite(''hasOwnProperty'' \<mapsto> Str ''x'')"

text \<open>A hash with a latitude and no longitude.\<close>

definition latOnlyHash :: "string \<Rightarrow> string option" where
  "latOnlyHash = [''id'' \<mapsto> ''4'', ''lat'' \<mapsto> ''37.7'']"

section \<open>Printing and parsing numbers\<close>

lemma isDigit_cases:
  "isDigit c \<Longrightarrow> \<not> isWhiteSpace c \<and> c \<noteq> CHR ''-'' \<and> c \<noteq> CHR ''+'' \<and> c \<noteq> CHR ''.''
     \<and> c \<noteq> CHR ''e'' \<and> c \<noteq> CHR ''E'' \<and> c \<noteq> CHR ''I''"
  by (auto simp: isDigit_def isWhiteSpace_def)

lemma digitChar_isDigit: "d < 10 \<Longrightarrow> isDigit (digitChar d)"
proof -
  assume "d < 10"
  then have "d \<in> {0,1,2,3,4,5,6,7,8,9}" by auto
  then show ?thesis by (auto simp: isDigit_def digitChar_def)
qed

lemma digitVal_digitChar: "d < 10 \<Longrightarrow> digitVal (digitChar d) = d"
proof -
  assume "d < 10"
  then have "d \<in> {0,1,2,3,4,5,6,7,8,9}" by auto
  then show ?thesis by (auto simp: digitVal_def digitChar_def)
qed

lemma natToString_digits: "list_all isDigit (natToString n)"
proof (induction n rule: natToString.induct)
  case (1 n)
  show ?case
  proof (cases "n < 10")
    case True
    then show ?thesis by (subst natToString.simps) (simp add: digitChar_isDigit)
  next
    case False
    with 1 show ?thesis by (subst natToString.simps) (simp add: digitChar_isDigit)
  qed
qed

lemma natToString_nonempty: "natToString n \<noteq> []"
  by (subst natToString.simps) simp

lemma stringToNat_snoc: "stringToNat (ds @ [c]) = 10 * stringToNat ds + digitVal c"
  by (simp add: stringToNat_def)

lemma stringToNat_natToString: "stringToNat (natToString n) = n"
proof (induction n rule: natToString.induct)
  case (1 n)
  show ?case
  proof (cases "n < 10")
    case True
    then show ?thesis
      by (subst natToString.simps) (simp add: stringToNat_def digitVal_digitChar)
  next
    case False
    with 1 show ?thesis
      by (subst natToString.simps) (simp add: stringToNat_snoc digitVal_digitChar)
  qed
qed

lemma takeWhile_digits_stop:
  "list_all isDigit ds \<Longrightarrow> (r = [] \<or> \<not> isDigit (hd r)) \<Longrightarrow> takeWhile isDigit (ds @ r) = ds"
  by (induction ds) (auto simp: neq_Nil_conv takeWhile_eq_Nil_iff)

lemma dropWhile_digits_stop:
  "list_all isDigit ds \<Longrightarrow> (r = [] \<or> \<not> isDigit (hd r)) \<Longrightarrow> dropWhile isDigit (ds @ r) = r"
  by (induction ds) (auto simp: neq_Nil_conv dropWhile_eq_self_iff)

lemma mkNumber_canonical:
  "ds \<noteq> [] \<Longrightarrow> hd ds \<noteq> CHR ''0'' \<Longrightarrow> last ds \<noteq> CHR ''0'' \<Longrightarrow> mkNumber neg ds n = Finite neg ds n"
proof -
  assume a: "ds \<noteq> []" "hd ds \<noteq> CHR ''0''" "last ds \<noteq> CHR ''0''"
  from a have t: "takeWhile (\<lambda>c. c = CHR ''0'') ds = []"
    by (cases ds) auto
  from a have d: "dropWhile (\<lambda>c. c = CHR ''0'') ds = ds"
    by (cases ds) auto
  from a have r: "dropWhile (\<lambda>c. c = CHR ''0'') (rev ds) = rev ds"
    by (cases ds rule: rev_cases) auto
  from a have e: "\<exists>x\<in>set ds. x \<noteq> CHR ''0''"
    by (cases ds) auto
  show ?thesis using a e by (simp add: mkNumber_def t d r)
qed

lemma mkNumber_trailing:
  assumes "ds \<noteq> []" "hd ds \<noteq> CHR ''0''" "last ds \<noteq> CHR ''0''"
  shows "mkNumber neg (ds @ replicate j (CHR ''0'')) n = Finite neg ds n"
proof -
  from assms have t: "takeWhile (\<lambda>c. c = CHR ''0'') (ds @ replicate j (CHR ''0'')) = []"
    by (cases ds) auto
  from assms have d: "dropWhile (\<lambda>c. c = CHR ''0'') (ds @ replicate j (CHR ''0'')) = ds @ replicate j (CHR ''0'')"
    by (cases ds) auto
  have r0: "dropWhile (\<lambda>c. c = CHR ''0'') (replicate j (CHR ''0'') @ xs) = dropWhile (\<lambda>c. c = CHR ''0'') xs" for xs
    by (induction j) auto
  from assms have r: "dropWhile (\<lambda>c. c = CHR ''0'') (rev ds) = rev ds"
    by (cases ds rule: rev_cases) auto
  from assms have e: "\<exists>x\<in>set ds. x \<noteq> CHR ''0''"
    by (cases ds) auto
  then have e': "\<exists>x\<in>set ds \<union> set (replicate j (CHR ''0'')). x \<noteq> CHR ''0''"
    by blast
  show ?thesis using assms e' by (simp add: mkNumber_def t d r0 r)
qed

lemma mkNumber_leading:
  assumes "ds \<noteq> []" "hd ds \<noteq> CHR ''0''" "last ds \<noteq> CHR ''0''"
  shows "mkNumber neg (replicate j (CHR ''0'') @ ds) n = Finite neg ds (n - int j)"
proof -
  from assms have t: "takeWhile (\<lambda>c. c = CHR ''0'') (replicate j (CHR ''0'') @ ds) = replicate j (CHR ''0'')"
    by (induction j) (cases ds; auto)+
  from assms have d: "dropWhile (\<lambda>c. c = CHR ''0'') (replicate j (CHR ''0'') @ ds) = ds"
    by (induction j) (cases ds; auto)+
  from assms have r: "dropWhile (\<lambda>c. c = CHR ''0'') (rev ds) = rev ds"
    by (cases ds rule: rev_cases) auto
  from assms have e: "\<exists>x\<in>set ds. x \<noteq> CHR ''0''"
    by (cases ds) auto
  show ?thesis using assms e by (simp add: mkNumber_def t d r)
qed

lemma list_all_isDigit_zeros: "list_all isDigit (replicate j (CHR ''0''))"
  by (induction j) (simp_all add: isDigit_def)

lemma takeWhile_all_digits: "list_all isDigit xs \<Longrightarrow> takeWhile isDigit xs = xs"
  by (simp add: list_all_iff)

lemma dropWhile_all_digits: "list_all isDigit xs \<Longrightarrow> dropWhile isDigit xs = []"
  by (simp add: list_all_iff)

lemma parseExponent_toString:
  "parseExponent (CHR ''e'' # (if e < 0 then ''-'' else ''+'') @ natToString (nat \<bar>e\<bar>)) = e"
proof -
  have t: "takeWhile isDigit (natToString m) = natToString m" for m
    by (rule takeWhile_all_digits [OF natToString_digits])
  show ?thesis
    by (simp add: t natToString_nonempty stringToNat_natToString)
qed

lemma splitSign_signed:
  assumes "body \<noteq> []" "isDigit (hd body)"
  shows "splitSign (dropWhile isWhiteSpace ((if neg then ''-'' else '''') @ body)) = (neg, body)"
proof -
  obtain c cs where b: "body = c # cs" using assms(1) by (cases body) auto
  with assms(2) have c: "isDigit c" by simp
  have w: "\<not> isWhiteSpace (CHR ''-'')" by (simp add: isWhiteSpace_def)
  show ?thesis using isDigit_cases [OF c] by (simp add: b w)
qed

lemma parseFloatMV_signed:
  assumes "body \<noteq> []" "isDigit (hd body)"
  shows "parseFloatMV ((if neg then ''-'' else '''') @ body) =
     (case fractionPart (dropWhile isDigit body) of
        (fp, r) \<Rightarrow>
          if takeWhile isDigit body = [] \<and> fp = [] then NaN
          else mkNumber neg (takeWhile isDigit body @ fp)
                 (int (length (takeWhile isDigit body)) + parseExponent r))"
proof -
  obtain c cs where b: "body = c # cs" using assms(1) by (cases body) auto
  with assms(2) have c: "isDigit c" by simp
  then have i: "take 8 body \<noteq> ''Infinity''"
    using isDigit_cases [OF c] by (simp add: b)
  show ?thesis
    unfolding parseFloatMV_def splitSign_signed [OF assms]
    using i by (simp add: Let_def)
qed

lemma parseIntMV_signed:
  assumes "body \<noteq> []" "isDigit (hd body)"
  shows "parseIntMV ((if neg then ''-'' else '''') @ body) =
     mkNumber neg (takeWhile isDigit body) (int (length (takeWhile isDigit body)))"
proof -
  obtain c cs where b: "body = c # cs" using assms(1) by (cases body) auto
  with assms(2) have c: "isDigit c" by simp
  show ?thesis
    unfolding parseIntMV_def splitSign_signed [OF assms]
    using c by (simp add: Let_def b)
qed

lemma canonical_FiniteD:
  assumes "canonical (Finite neg ds n)" "ds \<noteq> []"
  shows "list_all isDigit ds" "hd ds \<noteq> CHR ''0''" "last ds \<noteq> CHR ''0''" "isDigit (hd ds)"
  using assms by (auto simp: canonical_def list_all_iff)

lemma parseFloatMV_numberToString_Finite:
  assumes c: "canonical (Finite neg ds n)"
  shows "parseFloatMV (numberToString (Finite neg ds n)) = Finite neg ds n"
proof (cases "ds = []")
  case True
  with c have "neg = False" "n = 0" by (auto simp: canonical_def)
  with True show ?thesis
    by (simp add: parseFloatMV_def isWhiteSpace_def isDigit_def mkNumber_def)
next
  case False
  note d = canonical_FiniteD [OF c False]
  let ?k = "int (length ds)"
  have lp: "0 < ?k" using False by simp
  let ?e = "n - 1"
  let ?es = "(if ?e < 0 then ''-'' else ''+'') @ natToString (nat \<bar>?e\<bar>)"
  have nd: "\<not> isDigit (CHR ''.'')" "\<not> isDigit (CHR ''e'')" by (simp_all add: isDigit_def)
  have expo1: ?thesis if out: "\<not> (n \<le> 21) \<or> \<not> -6 < n" and k1: "?k = 1"
  proof -
    let ?body = "ds @ CHR ''e'' # ?es"
    have ne: "?body \<noteq> []" "isDigit (hd ?body)" using False d(4) by auto
    have t: "takeWhile isDigit ?body = ds"
      using takeWhile_digits_stop [OF d(1), of "CHR ''e'' # ?es"] nd by simp
    have dr: "dropWhile isDigit ?body = CHR ''e'' # ?es"
      using dropWhile_digits_stop [OF d(1), of "CHR ''e'' # ?es"] nd by simp
    have s: "numberToString (Finite neg ds n) = (if neg then ''-'' else '''') @ ?body"
      using False out k1 lp by (auto simp: Let_def)
    have l: "int (length ds) + (n - 1) = n" using k1 by simp
    have f: "fractionPart (CHR ''e'' # ?es) = ([], CHR ''e'' # ?es)" by simp
    show ?thesis
      unfolding s parseFloatMV_signed [OF ne] t dr f
      using False mkNumber_canonical [OF False d(2) d(3), of neg n]
      by (simp only: prod.case append_Nil2 l parseExponent_toString) simp
  qed
  have expo2: ?thesis if out: "\<not> (n \<le> 21) \<or> \<not> -6 < n" and k1: "?k \<noteq> 1"
  proof -
    let ?body = "hd ds # CHR ''.'' # tl ds @ CHR ''e'' # ?es"
    have ne: "?body \<noteq> []" "isDigit (hd ?body)" using d(4) by auto
    have tlall: "list_all isDigit (tl ds)" using d(1) False by (cases ds) auto
    have t: "takeWhile isDigit ?body = [hd ds]" using d(4) nd by simp
    have dr: "dropWhile isDigit ?body = CHR ''.'' # tl ds @ CHR ''e'' # ?es" using d(4) nd by simp
    have t2: "takeWhile isDigit (tl ds @ CHR ''e'' # ?es) = tl ds"
      using takeWhile_digits_stop [OF tlall, of "CHR ''e'' # ?es"] nd by simp
    have d2: "dropWhile isDigit (tl ds @ CHR ''e'' # ?es) = CHR ''e'' # ?es"
      using dropWhile_digits_stop [OF tlall, of "CHR ''e'' # ?es"] nd by simp
    have s: "numberToString (Finite neg ds n) = (if neg then ''-'' else '''') @ ?body"
      using False out k1 lp by (auto simp: Let_def)
    have f: "fractionPart (CHR ''.'' # tl ds @ CHR ''e'' # ?es) = (tl ds, CHR ''e'' # ?es)"
      using t2 d2 by simp
    have c: "[hd ds] @ tl ds = ds" using False by simp
    have l: "int (length [hd ds]) + (n - 1) = n" by simp
    show ?thesis
      unfolding s parseFloatMV_signed [OF ne] t dr f
      using mkNumber_canonical [OF False d(2) d(3), of neg n]
      by (simp only: prod.case c l parseExponent_toString) simp
  qed
  consider (A) "?k \<le> n" "n \<le> 21"
    | (B) "\<not> ?k \<le> n" "0 < n" "n \<le> 21"
    | (C) "\<not> 0 < n" "-6 < n"
    | (D) "\<not> (n \<le> 21)" "?k = 1" | (D') "\<not> -6 < n" "?k = 1"
    | (E) "\<not> (n \<le> 21)" "?k \<noteq> 1" | (E') "\<not> -6 < n" "?k \<noteq> 1"
    by linarith
  then show ?thesis
  proof cases
    case A
    let ?body = "ds @ replicate (nat (n - ?k)) (CHR ''0'')"
    have all: "list_all isDigit ?body"
      using d(1) by (simp add: list_all_isDigit_zeros)
    have ne: "?body \<noteq> []" "isDigit (hd ?body)" using False d(4) by auto
    have t: "takeWhile isDigit ?body = ?body"
      by (rule takeWhile_all_digits [OF all])
    have dr: "dropWhile isDigit ?body = []"
      by (rule dropWhile_all_digits [OF all])
    have s: "numberToString (Finite neg ds n) = (if neg then ''-'' else '''') @ ?body"
      using False A by simp
    have l: "int (length ds + nat (n - ?k)) = n" using A by simp
    show ?thesis
      unfolding s parseFloatMV_signed [OF ne] t dr
      using False mkNumber_trailing [OF False d(2) d(3), of neg "nat (n - ?k)" n] l
      by simp
  next
    case B
    let ?m = "nat n"
    let ?body = "take ?m ds @ CHR ''.'' # drop ?m ds"
    have m: "0 < ?m" "?m < length ds" using B by auto
    have a1: "list_all isDigit (take ?m ds)" "list_all isDigit (drop ?m ds)"
      using d(1) by (auto simp: list_all_iff dest: in_set_takeD in_set_dropD)
    have nd: "\<not> isDigit (CHR ''.'')" by (simp add: isDigit_def)
    have hdb: "hd ?body = hd ds" using m by (cases ds) (auto simp: take_Cons')
    have ne: "?body \<noteq> []" "isDigit (hd ?body)" using d(4) hdb by auto
    have t: "takeWhile isDigit ?body = take ?m ds"
      using takeWhile_digits_stop [OF a1(1), of "CHR ''.'' # drop ?m ds"] nd by simp
    have dr: "dropWhile isDigit ?body = CHR ''.'' # drop ?m ds"
      using dropWhile_digits_stop [OF a1(1), of "CHR ''.'' # drop ?m ds"] nd by simp
    have t2: "takeWhile isDigit (drop ?m ds) = drop ?m ds"
      by (rule takeWhile_all_digits [OF a1(2)])
    have d2: "dropWhile isDigit (drop ?m ds) = []"
      by (rule dropWhile_all_digits [OF a1(2)])
    have s: "numberToString (Finite neg ds n) = (if neg then ''-'' else '''') @ ?body"
      using False B by simp
    have l: "int (length (take ?m ds)) = n" using m B by simp
    show ?thesis
      unfolding s parseFloatMV_signed [OF ne] t dr
      using False m mkNumber_canonical [OF False d(2) d(3), of neg n] l
      by (simp add: t2 d2)
  next
    case C
    let ?j = "nat (- n)"
    let ?fp = "replicate ?j (CHR ''0'') @ ds"
    let ?body = "CHR ''0'' # CHR ''.'' # ?fp"
    have all: "list_all isDigit ?fp"
      using d(1) by (simp add: list_all_isDigit_zeros)
    have z: "isDigit (CHR ''0'')" and nd: "\<not> isDigit (CHR ''.'')" by (simp_all add: isDigit_def)
    have ne: "?body \<noteq> []" "isDigit (hd ?body)" using z by auto
    have t: "takeWhile isDigit ?body = ''0''" using z nd by simp
    have dr: "dropWhile isDigit ?body = CHR ''.'' # ?fp" using z nd by simp
    have t2: "takeWhile isDigit ?fp = ?fp"
      by (rule takeWhile_all_digits [OF all])
    have d2: "dropWhile isDigit ?fp = []"
      by (rule dropWhile_all_digits [OF all])
    have nk: "\<not> ?k \<le> n" using C lp by linarith
    have s: "numberToString (Finite neg ds n) = (if neg then ''-'' else '''') @ ?body"
      using False C nk by (auto simp: Let_def)
    have r: "CHR ''0'' # ?fp = replicate (Suc ?j) (CHR ''0'') @ ds" by simp
    have l: "1 - int (Suc ?j) = n" using C by simp
    have mk: "mkNumber neg (CHR ''0'' # ?fp) 1 = Finite neg ds n"
      using mkNumber_leading [OF False d(2) d(3), of neg "Suc ?j" 1]
      unfolding l by simp
    show ?thesis
      unfolding s parseFloatMV_signed [OF ne] t dr
      using mk by (simp add: t2 d2)
  next
    case D
    then show ?thesis using expo1 by blast
  next
    case D'
    then show ?thesis using expo1 by blast
  next
    case E
    then show ?thesis using expo2 by blast
  next
    case E'
    then show ?thesis using expo2 by blast
  qed
qed

lemma parseFloatMV_numberToString:
  assumes "canonical x"
  shows "parseFloatMV (numberToString x) = x"
proof (cases x)
  case NaN
  then show ?thesis
    by (simp add: parseFloatMV_def isWhiteSpace_def isDigit_def)
next
  case (Infinity neg)
  then show ?thesis
    by (cases neg) (simp_all add: parseFloatMV_def isWhiteSpace_def)
next
  case (Finite neg ds n)
  with assms show ?thesis
    using parseFloatMV_numberToString_Finite by simp
qed

lemma parseIntMV_numberToString:
  assumes c: "canonical x" and p: "plainInteger x"
  shows "parseIntMV (numberToString x) = x"
proof -
  from p obtain neg ds n where x: "x = Finite neg ds n" and r: "int (length ds) \<le> n" "n \<le> 21"
    by (cases x) (auto simp: plainInteger_def)
  show ?thesis
  proof (cases "ds = []")
    case True
    with c x have "neg = False" "n = 0" by (auto simp: canonical_def)
    with True x show ?thesis
      by (simp add: parseIntMV_def isWhiteSpace_def isDigit_def mkNumber_def)
  next
    case False
    from c x have c': "canonical (Finite neg ds n)" by simp
    note d = canonical_FiniteD [OF c' False]
    let ?k = "int (length ds)"
    let ?body = "ds @ replicate (nat (n - ?k)) (CHR ''0'')"
    have all: "list_all isDigit ?body"
      using d(1) by (simp add: list_all_isDigit_zeros)
    have ne: "?body \<noteq> []" "isDigit (hd ?body)" using False d(4) by auto
    have t: "takeWhile isDigit ?body = ?body"
      by (rule takeWhile_all_digits [OF all])
    have s: "numberToString (Finite neg ds n) = (if neg then ''-'' else '''') @ ?body"
      using False r by simp
    have l: "int (length ?body) = n" using r by simp
    show ?thesis
      unfolding x s parseIntMV_signed [OF ne] t l
      by (rule mkNumber_trailing [OF False d(2) d(3)])
  qed
qed

lemma parseIntMV_1e21: "parseIntMV (numberToString (Finite False ''1'' 22)) = Finite False ''1'' 1"
  by (simp add: parseIntMV_def isWhiteSpace_def isDigit_def mkNumber_def digitChar_def natToString.simps)

lemma parseFloat_numberToString:
  assumes "isNumber rnd x"
  shows "parseFloat rnd (numberToString x) = x"
  using assms by (simp add: parseFloat_def isNumber_def parseFloatMV_numberToString)

lemma parseInt_numberToString:
  assumes "isNumber rnd x" "plainInteger x"
  shows "parseInt rnd (numberToString x) = x"
  using assms by (simp add: parseInt_def isNumber_def parseIntMV_numberToString)

lemma isNumber_exact: "canonical x \<Longrightarrow> isNumber (\<lambda>x. x) x"
  by (simp add: isNumber_def roundNumber_def split: jsnum.splits)

lemma roundNumber_exact: "roundNumber (\<lambda>x. x) x = x"
  by (simp add: roundNumber_def split: jsnum.splits)

section \<open>The decoder and the not-found sentinel\<close>

lemma exampleHash_nonempty: "exampleHash \<noteq> Map.empty"
  by (simp add: exampleHash_def)

lemma siteWithoutCoordinate_nonempty: "siteWithoutCoordinate \<noteq> Map.empty"
  by (simp add: siteWithoutCoordinate_def)

lemma shadowedHash_nonempty: "shadowedHash \<noteq> Map.empty"
  by (simp add: shadowedHash_def)

lemma latOnlyHash_nonempty: "latOnlyHash \<noteq> Map.empty"
  by (simp add: latOnlyHash_def)

lemma hashObject_apply:
  "hashObject h k = (if k = ''__proto__'' then None else map_option Str (h k))"
  by (simp add: hashObject_def)

lemma hasOwnProperty_plain:
  "ob ''hasOwnProperty'' = None \<Longrightarrow> hasOwnProperty ob k = Inr (ob k \<noteq> None)"
  by (simp add: hasOwnProperty_def)

lemma hasOwnProperty_shadowed:
  "ob ''hasOwnProperty'' \<noteq> None \<Longrightarrow> hasOwnProperty ob k = Inl TypeError"
  by (simp add: hasOwnProperty_def)

lemma remap_plain:
  "h ''hasOwnProperty'' = None \<Longrightarrow> \<exists>s. remap rnd (Some h) = Inr s"
  by (simp add: Let_def hasOwnProperty_plain)

lemma remap_shadowed:
  "h ''hasOwnProperty'' \<noteq> None \<Longrightarrow> remap rnd (Some h) = Inl TypeError"
  by (simp add: Let_def hasOwnProperty_shadowed)

lemma exampleEnv_toDouble: "toDouble exampleEnv = (\<lambda>x. x)"
  by (simp add: exampleEnv_def)

lemma parse_examples:
  "parseInt (\<lambda>x. x) ''1'' = Finite False ''1'' 1"
  "parseInt (\<lambda>x. x) ''4'' = Finite False ''4'' 1"
  "parseInt (\<lambda>x. x) ''12'' = Finite False ''12'' 2"
  "parseInt (\<lambda>x. x) ''undefined'' = NaN"
  "parseFloat (\<lambda>x. x) ''undefined'' = NaN"
  "parseFloat (\<lambda>x. x) ''4.5'' = Finite False ''45'' 1"
  "parseFloat (\<lambda>x. x) ''37.7'' = Finite False ''377'' 2"
  "parseFloat (\<lambda>x. x) ''-122.4'' = Finite True ''1224'' 3"
  by (simp_all add: parseInt_def parseFloat_def roundNumber_exact parseIntMV_def parseFloatMV_def
      isWhiteSpace_def isDigit_def mkNumber_def)

lemma remap_exampleHash:
  "remap (toDouble exampleEnv) (Some (hashObject exampleHash)) = Inr exampleSite"
  unfolding exampleEnv_toDouble
  by (auto simp: Let_def hasOwnProperty_def hashObject_def exampleHash_def exampleSite_def
      getProp_def parse_examples fun_eq_iff)

lemma shadowedStore_hash: "vals shadowedStore ''sites:info:5'' = Some (RHash shadowedHash)"
  by (simp add: shadowedStore_def)

lemma shadowedHash_object: "hashObject shadowedHash ''hasOwnProperty'' \<noteq> None"
  by (simp add: hashObject_def shadowedHash_def)

text \<open>
  Claim C10, as stated for every flat record, fails: \<open>remap\<close> asks for the two fields
  with \<open>siteHash.hasOwnProperty\<close>, and on a record that has a field of that name the call
  throws. The hash \<open>{id: '5', lat: '37.7', hasOwnProperty: 'x'}\<close> has a latitude and no
  longitude; decoding it gives no result in which the latitude could be left, but a
  \<open>TypeError\<close>. The decoder does receive this record: it is the reply of the store
  below for the hash of site \<open>5\<close>.
\<close>

theorem remap_throws_on_field_hasOwnProperty:
  "hashObject shadowedHash ''lat'' = Some (Str ''37.7'') \<and>
   hashObject shadowedHash ''lng'' = None \<and>
   remap (toDouble exampleEnv) (Some (hashObject shadowedHash)) = Inl TypeError \<and>
   execCommand exampleEnv (HGETALL ''sites:info:5'') shadowedStore
     = (Inr (ObjectReply (hashObject shadowedHash)), shadowedStore)"
proof -
  have a: "hashObject shadowedHash ''lat'' = Some (Str ''37.7'')"
      "hashObject shadowedHash ''lng'' = None"
    by (simp_all add: hashObject_def shadowedHash_def)
  have b: "remap (toDouble exampleEnv) (Some (hashObject shadowedHash)) = Inl TypeError"
    using shadowedHash_object by (simp add: remap_shadowed del: remap.simps)
  have c: "execCommand exampleEnv (HGETALL ''sites:info:5'') shadowedStore
     = (Inr (ObjectReply (hashObject shadowedHash)), shadowedStore)"
    using shadowedHash_nonempty by (simp add: shadowedStore_hash)
  from a b c show ?thesis by simp
qed

text \<open>
  Claim C10, amended. Let the hash have no field named \<open>hasOwnProperty\<close>. Then \<open>remap\<close>
  returns an object. When the hash has both a \<open>lat\<close> and a \<open>lng\<close> field, the result has
  the coordinate object built from the two parsed values and neither flat field.
  Otherwise (one of the two is absent, or both) no coordinate object is built: the
  fields \<open>coordinate\<close>, \<open>lat\<close> and \<open>lng\<close> of the result are those of the hash, so a flat
  field that is present stays as it was.
\<close>

theorem remap_coordinate_only_when_both:
  assumes "siteHash ''hasOwnProperty'' = None"
  shows "\<exists>r. remap rnd (Some siteHash) = Inr r \<and>
     (if siteHash ''lat'' \<noteq> None \<and> siteHash ''lng'' \<noteq> None then
        r ''coordinate'' = Some (Obj
          [''lat'' \<mapsto> Num (parseFloat rnd (toString (getProp siteHash ''lat''))),
           ''lng'' \<mapsto> Num (parseFloat rnd (toString (getProp siteHash ''lng'')))]) \<and>
        r ''lat'' = None \<and> r ''lng'' = None
      else
        r ''coordinate'' = siteHash ''coordinate'' \<and>
        r ''lat'' = siteHash ''lat'' \<and> r ''lng'' = siteHash ''lng'')"
  using assms by (simp add: Let_def hasOwnProperty_plain)

theorem remap_coordinate_only_when_both_witness:
  "(\<exists>r. remap (toDouble exampleEnv) (Some (hashObject latOnlyHash)) = Inr r \<and>
        r ''coordinate'' = None \<and> r ''lat'' = Some (Str ''37.7'') \<and> r ''lng'' = None) \<and>
   (\<exists>r. remap (toDouble exampleEnv) (Some (hashObject exampleHash)) = Inr r \<and>
        r ''coordinate'' = Some (Obj [''lat'' \<mapsto> Num (Finite False ''377'' 2),
                                      ''lng'' \<mapsto> Num (Finite True ''1224'' 3)]) \<and>
        r ''lat'' = None \<and> r ''lng'' = None)"
proof -
  have n: "hashObject latOnlyHash ''hasOwnProperty'' = None"
      "hashObject exampleHash ''hasOwnProperty'' = None"
    by (simp_all add: hashObject_def latOnlyHash_def exampleHash_def)
  have a: "hashObject latOnlyHash ''lat'' = Some (Str ''37.7'')" "hashObject latOnlyHash ''lng'' = None"
      "hashObject latOnlyHash ''coordinate'' = None"
    by (simp_all add: hashObject_def latOnlyHash_def)
  have b: "hashObject exampleHash ''lat'' = Some (Str ''37.7'')"
      "hashObject exampleHash ''lng'' = Some (Str ''-122.4'')"
    by (simp_all add: hashObject_def exampleHash_def)
  from remap_coordinate_only_when_both
    [where siteHash = "hashObject latOnlyHash" and rnd = "toDouble exampleEnv", OF n(1)]
  have 1: "\<exists>r. remap (toDouble exampleEnv) (Some (hashObject latOnlyHash)) = Inr r \<and>
        r ''coordinate'' = None \<and> r ''lat'' = Some (Str ''37.7'') \<and> r ''lng'' = None"
    unfolding a by simp
  from remap_coordinate_only_when_both
    [where siteHash = "hashObject exampleHash" and rnd = "toDouble exampleEnv", OF n(2)]
  have 2: "\<exists>r. remap (toDouble exampleEnv) (Some (hashObject exampleHash)) = Inr r \<and>
        r ''coordinate'' = Some (Obj [''lat'' \<mapsto> Num (Finite False ''377'' 2),
                                      ''lng'' \<mapsto> Num (Finite True ''1224'' 3)]) \<and>
        r ''lat'' = None \<and> r ''lng'' = None"
    unfolding b getProp_def exampleEnv_toDouble by (simp add: parse_examples)
  from 1 2 show ?thesis by (rule conjI)
qed

text \<open>
  Claim C7. The decode step of \<open>findById\<close> is \<open>siteHash === null ? siteHash :
  remap(siteHash)\<close>: when the store reports no hash for a site key, the sentinel \<open>null\<close>
  is handed back as it is, undecoded, and the store is left as it was. The loops of
  \<open>findAll\<close>, \<open>findByGeo\<close> and \<open>findByGeoWithExcessCapacity\<close> pass over the sentinel in
  the same way, with no attempt to decode it.
\<close>

theorem sentinel_returned_without_decoding:
  assumes "execCommand en (HGETALL (getSiteHashKey kg sid)) st = (Inr NullReply, st)"
  shows "findById en kg (Str sid) st = (Inr Null, st) \<and>
    findAll_results en (Inr NullReply # results) sites = findAll_results en results sites \<and>
    findByGeo_loop en kg (sid # siteIds) sites st = findByGeo_loop en kg siteIds sites st \<and>
    findByGeoWithExcessCapacity_loop en kg (sid # siteIds) sites st =
      findByGeoWithExcessCapacity_loop en kg siteIds sites st"
  using assms by (simp add: findById_def)

theorem sentinel_returned_without_decoding_witness:
  "findById exampleEnv exampleKeys (Str ''7'') emptyStore = (Inr Null, emptyStore) \<and>
   findAll_results exampleEnv [Inr NullReply] [] = Inr [] \<and>
   findByGeo_loop exampleEnv exampleKeys [''7''] [] emptyStore = (Inr [], emptyStore) \<and>
   findByGeoWithExcessCapacity_loop exampleEnv exampleKeys [''7''] [] emptyStore = (Inr [], emptyStore)"
proof -
  have h: "execCommand exampleEnv (HGETALL (getSiteHashKey exampleKeys ''7'')) emptyStore
      = (Inr NullReply, emptyStore)"
    by (simp add: emptyStore_def)
  show ?thesis
    using sentinel_returned_without_decoding [OF h, of "[]" "[]" "[]"] by simp
qed

text \<open>
  Claim C6, as stated for every present hash, fails: when the hash has a field named
  \<open>hasOwnProperty\<close>, the decoder throws and \<open>findById\<close> with it. The store holds the hash
  \<open>{id: '5', lat: '37.7', hasOwnProperty: 'x'}\<close> for site \<open>5\<close>, and \<open>findById(5)\<close> ends
  with a \<open>TypeError\<close> and no site.
\<close>

theorem findById_throws_on_field_hasOwnProperty:
  "vals shadowedStore (getSiteHashKey exampleKeys (toString (Num (Finite False ''5'' 1))))
     = Some (RHash shadowedHash) \<and>
   shadowedHash \<noteq> Map.empty \<and>
   findById exampleEnv exampleKeys (Num (Finite False ''5'' 1)) shadowedStore
     = (Inl TypeError, shadowedStore)"
proof -
  have k: "getSiteHashKey exampleKeys (toString (Num (Finite False ''5'' 1))) = ''sites:info:5''"
    by (simp add: exampleKeys_def)
  have r: "remap (toDouble exampleEnv) (Some (hashObject shadowedHash)) = Inl TypeError"
    using shadowedHash_object by (simp add: remap_shadowed del: remap.simps)
  have f: "findById exampleEnv exampleKeys (Num (Finite False ''5'' 1)) shadowedStore
     = (Inl TypeError, shadowedStore)"
    unfolding findById_def k using shadowedHash_nonempty r
    by (simp add: shadowedStore_hash del: remap.simps)
  show ?thesis
    unfolding k using shadowedStore_hash shadowedHash_nonempty f by simp
qed

text \<open>
  Claim C6, amended. Let \<open>k\<close> be the key of the site hash of an identifier. When the
  store has no hash at \<open>k\<close> (no value, or a hash without fields), \<open>findById\<close> returns the
  sentinel \<open>null\<close> and throws nothing. When it has one with no field named
  \<open>hasOwnProperty\<close>, \<open>findById\<close> returns the object that \<open>remap\<close> makes of it. The
  store is the same afterwards in both cases.
\<close>

theorem findById_absent_or_decoded:
  assumes "k = getSiteHashKey kg (toString ident)"
  shows "(vals st k = None \<or> vals st k = Some (RHash Map.empty) \<longrightarrow>
            findById en kg ident st = (Inr Null, st)) \<and>
         (\<forall>h. vals st k = Some (RHash h) \<and> h \<noteq> Map.empty \<and> h ''hasOwnProperty'' = None \<longrightarrow>
            (\<exists>s. remap (toDouble en) (Some (hashObject h)) = Inr s \<and>
                 findById en kg ident st = (Inr (Obj s), st)))"
proof (intro conjI allI impI)
  assume "vals st k = None \<or> vals st k = Some (RHash Map.empty)"
  then show "findById en kg ident st = (Inr Null, st)"
    using assms by (auto simp: findById_def)
next
  fix h assume h: "vals st k = Some (RHash h) \<and> h \<noteq> Map.empty \<and> h ''hasOwnProperty'' = None"
  then have "hashObject h ''hasOwnProperty'' = None" by (simp add: hashObject_def)
  from remap_plain [where h = "hashObject h", OF this]
  obtain s where s: "remap (toDouble en) (Some (hashObject h)) = Inr s"
    by blast
  have "findById en kg ident st = (Inr (Obj s), st)"
    unfolding findById_def assms [symmetric] using h s by (simp del: remap.simps)
  with s show "\<exists>s. remap (toDouble en) (Some (hashObject h)) = Inr s \<and>
                 findById en kg ident st = (Inr (Obj s), st)"
    by blast
qed

theorem findById_absent_or_decoded_witness:
  "findById exampleEnv exampleKeys (Num (Finite False ''2'' 1)) exampleStore = (Inr Null, exampleStore) \<and>
   findById exampleEnv exampleKeys (Num (Finite False ''1'' 1)) exampleStore
     = (Inr (Obj exampleSite), exampleStore)"
proof -
  have k2: "''sites:info:2'' = getSiteHashKey exampleKeys (toString (Num (Finite False ''2'' 1)))"
    by (simp add: exampleKeys_def)
  have k1: "''sites:info:1'' = getSiteHashKey exampleKeys (toString (Num (Finite False ''1'' 1)))"
    by (simp add: exampleKeys_def)
  have a: "vals exampleStore ''sites:info:2'' = None"
    by (simp add: exampleStore_def)
  have b: "vals exampleStore ''sites:info:1'' = Some (RHash exampleHash)"
    by (simp add: exampleStore_def)
  have n: "exampleHash ''hasOwnProperty'' = None"
    by (simp add: exampleHash_def)
  from findById_absent_or_decoded [OF k2, of exampleStore exampleEnv] a
  have 1: "findById exampleEnv exampleKeys (Num (Finite False ''2'' 1)) exampleStore = (Inr Null, exampleStore)"
    by blast
  from findById_absent_or_decoded [OF k1, of exampleStore exampleEnv] b exampleHash_nonempty n
  have "\<exists>s. remap (toDouble exampleEnv) (Some (hashObject exampleHash)) = Inr s \<and>
        findById exampleEnv exampleKeys (Num (Finite False ''1'' 1)) exampleStore = (Inr (Obj s), exampleStore)"
    by blast
  then have 2: "findById exampleEnv exampleKeys (Num (Finite False ''1'' 1)) exampleStore
     = (Inr (Obj exampleSite), exampleStore)"
    unfolding remap_exampleHash by auto
  from 1 2 show ?thesis by (rule conjI)
qed

section \<open>The round trip of the codec\<close>

lemma flatten_shadowed: "site ''hasOwnProperty'' \<noteq> None \<Longrightarrow> flatten site = Inl TypeError"
  by (simp add: flatten_def hasOwnProperty_shadowed)



text \<open>
  Claim C3, amended. Let a site have no own property named \<open>hasOwnProperty\<close>, Numbers
  as \<open>id\<close>, \<open>panels\<close> and \<open>capacity\<close>, and a coordinate object with Numbers as \<open>lat\<close> and
  \<open>lng\<close>, where \<open>id\<close> and \<open>panels\<close> are integers of magnitude below \<open>10 ^ 21\<close>. Then
  \<open>flatten\<close> succeeds, and \<open>remap\<close> gives back the same \<open>id\<close>, \<open>panels\<close>, \<open>capacity\<close> and
  the coordinate \<open>{lat, lng}\<close>, both on the flat record itself and on the record as the
  store returns it, every value a string.
\<close>

theorem codec_round_trip:
  assumes plain: "site ''hasOwnProperty'' = None"
    and site: "site ''id'' = Some (Num i)" "site ''panels'' = Some (Num p)"
      "site ''capacity'' = Some (Num c)" "site ''coordinate'' = Some (Obj co)"
      "co ''lat'' = Some (Num a)" "co ''lng'' = Some (Num b)"
    and nums: "isNumber rnd i" "isNumber rnd p" "isNumber rnd c" "isNumber rnd a" "isNumber rnd b"
    and ints: "plainInteger i" "plainInteger p"
  shows "\<exists>flat r r'. flatten site = Inr flat \<and>
     remap rnd (Some (hashObject (map_option toString \<circ> flat))) = Inr r \<and>
     remap rnd (Some flat) = Inr r' \<and>
     r ''id'' = Some (Num i) \<and> r ''panels'' = Some (Num p) \<and> r ''capacity'' = Some (Num c) \<and>
     r ''coordinate'' = Some (Obj [''lat'' \<mapsto> Num a, ''lng'' \<mapsto> Num b]) \<and>
     r' ''id'' = Some (Num i) \<and> r' ''panels'' = Some (Num p) \<and> r' ''capacity'' = Some (Num c) \<and>
     r' ''coordinate'' = Some (Obj [''lat'' \<mapsto> Num a, ''lng'' \<mapsto> Num b])"
proof -
  let ?flat = "(site(''lat'' \<mapsto> Num a, ''lng'' \<mapsto> Num b))(''coordinate'' := None)"
  let ?h = "hashObject (map_option toString \<circ> ?flat)"
  have f: "flatten site = Inr ?flat"
    using site plain by (simp add: flatten_def hasOwnProperty_def getProp_def)
  have rt: "parseInt rnd (numberToString i) = i" "parseInt rnd (numberToString p) = p"
      "parseFloat rnd (numberToString c) = c" "parseFloat rnd (numberToString a) = a"
      "parseFloat rnd (numberToString b) = b"
    using nums ints by (simp_all add: parseInt_numberToString parseFloat_numberToString)
  have flds: "?flat ''id'' = Some (Num i)" "?flat ''panels'' = Some (Num p)"
      "?flat ''capacity'' = Some (Num c)" "?flat ''lat'' = Some (Num a)" "?flat ''lng'' = Some (Num b)"
      "?flat ''hasOwnProperty'' = None"
    using site plain by simp_all
  have hflds: "?h ''id'' = Some (Str (numberToString i))" "?h ''panels'' = Some (Str (numberToString p))"
      "?h ''capacity'' = Some (Str (numberToString c))" "?h ''lat'' = Some (Str (numberToString a))"
      "?h ''lng'' = Some (Str (numberToString b))" "?h ''hasOwnProperty'' = None"
    using site plain by (simp_all add: hashObject_def)
  have 1: "\<exists>r. remap rnd (Some ?h) = Inr r \<and>
     r ''id'' = Some (Num i) \<and> r ''panels'' = Some (Num p) \<and> r ''capacity'' = Some (Num c) \<and>
     r ''coordinate'' = Some (Obj [''lat'' \<mapsto> Num a, ''lng'' \<mapsto> Num b])"
    using hflds rt by (simp add: Let_def hasOwnProperty_def getProp_def)
  have 2: "\<exists>r'. remap rnd (Some ?flat) = Inr r' \<and>
     r' ''id'' = Some (Num i) \<and> r' ''panels'' = Some (Num p) \<and> r' ''capacity'' = Some (Num c) \<and>
     r' ''coordinate'' = Some (Obj [''lat'' \<mapsto> Num a, ''lng'' \<mapsto> Num b])"
    using flds rt by (simp add: Let_def hasOwnProperty_def getProp_def)
  from f 1 2 show ?thesis by blast
qed

theorem codec_round_trip_witness:
  "\<exists>flat r r'. flatten exampleSite = Inr flat \<and>
     remap (toDouble exampleEnv) (Some (hashObject (map_option toString \<circ> flat))) = Inr r \<and>
     remap (toDouble exampleEnv) (Some flat) = Inr r' \<and>
     r ''id'' = Some (Num (Finite False ''1'' 1)) \<and>
     r ''panels'' = Some (Num (Finite False ''12'' 2)) \<and>
     r ''capacity'' = Some (Num (Finite False ''45'' 1)) \<and>
     r ''coordinate'' = Some (Obj [''lat'' \<mapsto> Num (Finite False ''377'' 2),
                                   ''lng'' \<mapsto> Num (Finite True ''1224'' 3)]) \<and>
     r' ''id'' = Some (Num (Finite False ''1'' 1)) \<and>
     r' ''panels'' = Some (Num (Finite False ''12'' 2)) \<and>
     r' ''capacity'' = Some (Num (Finite False ''45'' 1)) \<and>
     r' ''coordinate'' = Some (Obj [''lat'' \<mapsto> Num (Finite False ''377'' 2),
                                    ''lng'' \<mapsto> Num (Finite True ''1224'' 3)])"
proof -
  let ?co = "[''lat'' \<mapsto> Num (Finite False ''377'' 2), ''lng'' \<mapsto> Num (Finite True ''1224'' 3)]"
  have n: "exampleSite ''hasOwnProperty'' = None"
    by (simp add: exampleSite_def)
  have s: "exampleSite ''id'' = Some (Num (Finite False ''1'' 1))"
      "exampleSite ''panels'' = Some (Num (Finite False ''12'' 2))"
      "exampleSite ''capacity'' = Some (Num (Finite False ''45'' 1))"
      "exampleSite ''coordinate'' = Some (Obj ?co)"
      "?co ''lat'' = Some (Num (Finite False ''377'' 2))"
      "?co ''lng'' = Some (Num (Finite True ''1224'' 3))"
    by (simp_all add: exampleSite_def)
  have c: "isNumber (toDouble exampleEnv) (Finite False ''1'' 1)"
      "isNumber (toDouble exampleEnv) (Finite False ''12'' 2)"
      "isNumber (toDouble exampleEnv) (Finite False ''45'' 1)"
      "isNumber (toDouble exampleEnv) (Finite False ''377'' 2)"
      "isNumber (toDouble exampleEnv) (Finite True ''1224'' 3)"
    unfolding exampleEnv_toDouble
    by (rule isNumber_exact, simp add: canonical_def isDigit_def)+
  have p: "plainInteger (Finite False ''1'' 1)" "plainInteger (Finite False ''12'' 2)"
    by (simp_all add: plainInteger_def)
  show ?thesis
    by (rule codec_round_trip [where site = exampleSite and co = ?co, OF n s c p])
qed

text \<open>
  Claim C3, as stated for every site, fails. The identifier \<open>1e21\<close> is printed as
  \<open>1e+21\<close>, of which \<open>parseInt\<close> reads the leading digit only, so the decoded \<open>id\<close> is
  \<open>1\<close>. And a site with an own property named \<open>hasOwnProperty\<close> is not encoded at all:
  \<open>flatten\<close> calls \<open>flattenedSite.hasOwnProperty\<close> and throws.
\<close>

theorem codec_round_trip_fails_at_1e21:
  "(\<exists>flat r. flatten bigIdSite = Inr flat \<and>
     remap (toDouble exampleEnv) (Some (hashObject (map_option toString \<circ> flat))) = Inr r \<and>
     bigIdSite ''id'' = Some (Num (Finite False ''1'' 22)) \<and>
     isNumber (toDouble exampleEnv) (Finite False ''1'' 22) \<and>
     numberToString (Finite False ''1'' 22) = ''1e+21'' \<and>
     r ''id'' = Some (Num (Finite False ''1'' 1)) \<and>
     r ''id'' \<noteq> bigIdSite ''id'') \<and>
   shadowedSite ''coordinate'' = exampleSite ''coordinate'' \<and>
   flatten shadowedSite = Inl TypeError"
proof -
  let ?a = "Num (Finite False ''377'' 2)" and ?b = "Num (Finite True ''1224'' 3)"
  let ?flat = "(bigIdSite(''lat'' \<mapsto> ?a, ''lng'' \<mapsto> ?b))(''coordinate'' := None)"
  let ?h = "hashObject (map_option toString \<circ> ?flat)"
  have f: "flatten bigIdSite = Inr ?flat"
    by (simp add: flatten_def hasOwnProperty_def getProp_def bigIdSite_def exampleSite_def)
  have n: "numberToString (Finite False ''1'' 22) = ''1e+21''"
    by (simp add: digitChar_def natToString.simps)
  have p: "parseInt (toDouble exampleEnv) ''1e+21'' = Finite False ''1'' 1"
    unfolding exampleEnv_toDouble
    by (simp add: parseInt_def roundNumber_exact parseIntMV_def isWhiteSpace_def isDigit_def mkNumber_def)
  have i: "?h ''id'' = Some (Str ''1e+21'')" "?h ''hasOwnProperty'' = None"
    unfolding hashObject_def
    by (simp_all add: bigIdSite_def exampleSite_def digitChar_def natToString.simps)
  have b: "bigIdSite ''id'' = Some (Num (Finite False ''1'' 22))"
    by (simp add: bigIdSite_def)
  have c: "isNumber (toDouble exampleEnv) (Finite False ''1'' 22)"
    unfolding exampleEnv_toDouble
    by (rule isNumber_exact) (simp add: canonical_def isDigit_def)
  have r: "\<exists>r. remap (toDouble exampleEnv) (Some ?h) = Inr r \<and> r ''id'' = Some (Num (Finite False ''1'' 1))"
    using i p by (simp add: Let_def hasOwnProperty_def getProp_def)
  have 1: "\<exists>flat r. flatten bigIdSite = Inr flat \<and>
     remap (toDouble exampleEnv) (Some (hashObject (map_option toString \<circ> flat))) = Inr r \<and>
     bigIdSite ''id'' = Some (Num (Finite False ''1'' 22)) \<and>
     isNumber (toDouble exampleEnv) (Finite False ''1'' 22) \<and>
     numberToString (Finite False ''1'' 22) = ''1e+21'' \<and>
     r ''id'' = Some (Num (Finite False ''1'' 1)) \<and>
     r ''id'' \<noteq> bigIdSite ''id''"
    unfolding f using r b c n by auto
  have 2: "shadowedSite ''coordinate'' = exampleSite ''coordinate''"
    by (simp add: shadowedSite_def)
  have 3: "flatten shadowedSite = Inl TypeError"
    by (rule flatten_shadowed) (simp add: shadowedSite_def)
  from 1 2 3 show ?thesis by blast
qed

section \<open>Insert\<close>

text \<open>
  Claim C2 asks that \<open>insert\<close> of a site without a coordinate fails and writes nothing.
  The code sends the hash to the store before it looks for the coordinate: on the empty
  store, \<open>insert\<close> of \<open>{id: 1, panels: 12, capacity: 4.5}\<close> fails with the error of the
  missing coordinate, and the store then holds the hash of the rejected site.
\<close>

theorem insert_without_coordinate_writes_hash:
  "fst (insert exampleEnv exampleKeys siteWithoutCoordinate emptyStore)
     = Inl (Error ''Coordinate required for site geo insert!'') \<and>
   vals emptyStore ''sites:info:1'' = None \<and>
   vals (snd (insert exampleEnv exampleKeys siteWithoutCoordinate emptyStore)) ''sites:info:1''
     = Some (RHash (map_option toString \<circ> siteWithoutCoordinate)) \<and>
   snd (insert exampleEnv exampleKeys siteWithoutCoordinate emptyStore) \<noteq> emptyStore"
proof -
  let ?st1 = "emptyStore\<lparr>vals := (vals emptyStore)
      (''sites:info:1'' \<mapsto> RHash (map_option toString \<circ> siteWithoutCoordinate))\<rparr>"
  have f: "flatten siteWithoutCoordinate = Inr siteWithoutCoordinate"
    by (simp add: flatten_def hasOwnProperty_def siteWithoutCoordinate_def)
  have k: "getSiteHashKey exampleKeys (toString (getProp siteWithoutCoordinate ''id'')) = ''sites:info:1''"
    by (simp add: exampleKeys_def getProp_def siteWithoutCoordinate_def)
  have c: "hasOwnProperty siteWithoutCoordinate ''coordinate'' = Inr False"
    by (simp add: hasOwnProperty_def siteWithoutCoordinate_def)
  have i: "insert exampleEnv exampleKeys siteWithoutCoordinate emptyStore =
      (Inl (Error ''Coordinate required for site geo insert!''), ?st1)"
    unfolding insert_def f k using c siteWithoutCoordinate_nonempty
    by (simp add: emptyStore_def)
  have ne: "?st1 \<noteq> emptyStore"
  proof
    assume "?st1 = emptyStore"
    then have "vals ?st1 ''sites:info:1'' = vals emptyStore ''sites:info:1''"
      by simp
    then show False by (simp add: emptyStore_def)
  qed
  show ?thesis unfolding i using ne by (simp add: emptyStore_def)
qed

lemma HMSET_success:
  assumes "execCommand en (HMSET k flat) st = (Inr r, st1)"
  shows "\<exists>h. vals st1 k = Some (RHash h) \<and> (\<forall>f v. flat f = Some v \<longrightarrow> h f = Some (toString v)) \<and>
     (\<forall>k'. k' \<noteq> k \<longrightarrow> vals st1 k' = vals st k') \<and> ttl st1 = ttl st"
  using assms
  by (auto split: if_splits option.splits rvalue.splits simp: map_add_def)

lemma GEOADD_success:
  assumes "execCommand en (GEOADD k lng lat m) st = (Inr r, st1)"
  shows "\<exists>score z. geoEncode en lng lat = Some score \<and> vals st1 k = Some (RZSet z) \<and>
     map_of z m = Some score \<and> (\<forall>h. vals st k \<noteq> Some (RHash h)) \<and>
     (\<forall>k'. k' \<noteq> k \<longrightarrow> vals st1 k' = vals st k') \<and> ttl st1 = ttl st"
  using assms
  by (auto split: if_splits option.splits rvalue.splits simp: update_Some_unfold)


lemma exampleSite_flatten:
  "flatten exampleSite =
     Inr ((exampleSite(''lat'' \<mapsto> Num (Finite False ''377'' 2), ''lng'' \<mapsto> Num (Finite True ''1224'' 3)))
            (''coordinate'' := None))"
  by (simp add: flatten_def hasOwnProperty_def getProp_def exampleSite_def)

lemma exampleEnv_geoEncode_example: "geoEncode exampleEnv ''-122.4'' ''37.7'' = Some 1224"
  by (simp add: exampleEnv_def parseFloatMV_def isWhiteSpace_def isDigit_def mkNumber_def
      stringToNat_def digitVal_def)

lemma insert_exampleSite:
  "fst (insert exampleEnv exampleKeys exampleSite emptyStore) = Inr ''sites:info:1''"
proof -
  have k: "getSiteHashKey exampleKeys (toString (getProp exampleSite ''id'')) = ''sites:info:1''"
    by (simp add: exampleKeys_def getProp_def exampleSite_def)
  have g: "getSiteGeoKey exampleKeys = ''sites:geo''" by (simp add: exampleKeys_def)
  have c: "hasOwnProperty exampleSite ''coordinate'' = Inr True"
    by (simp add: hasOwnProperty_def exampleSite_def)
  have m: "getMember (getProp exampleSite ''coordinate'') ''lng'' = Inr (Num (Finite True ''1224'' 3))"
      "getMember (getProp exampleSite ''coordinate'') ''lat'' = Inr (Num (Finite False ''377'' 2))"
    by (simp_all add: getProp_def exampleSite_def)
  have i: "toString (getProp exampleSite ''id'') = ''1''"
    by (simp add: getProp_def exampleSite_def)
  have s: "toString (Num (Finite True ''1224'' 3)) = ''-122.4''" "toString (Num (Finite False ''377'' 2)) = ''37.7''"
    by simp_all
  let ?flat = "(exampleSite(''lat'' \<mapsto> Num (Finite False ''377'' 2), ''lng'' \<mapsto> Num (Finite True ''1224'' 3)))
            (''coordinate'' := None)"
  have ne: "?flat \<noteq> Map.empty"
  proof
    assume "?flat = Map.empty"
    then have "?flat ''lat'' = Map.empty ''lat''" by (rule fun_cong)
    then show False by simp
  qed
  have h: "execCommand exampleEnv (HMSET ''sites:info:1'' ?flat) emptyStore =
      (Inr (StatusReply ''OK''),
       emptyStore\<lparr>vals := (vals emptyStore)(''sites:info:1'' \<mapsto> RHash (map_option toString \<circ> ?flat))\<rparr>)"
    using ne by (simp add: emptyStore_def)
  have k': "getSiteHashKey exampleKeys ''1'' = ''sites:info:1''"
    by (simp add: exampleKeys_def)
  show ?thesis
    unfolding insert_def exampleSite_flatten i k' g m s Let_def sum.case h prod.case
    using c exampleEnv_geoEncode_example
    by (simp add: emptyStore_def)
qed


text \<open>
  Claim C4. When \<open>insert\<close> returns normally, it returns the key of the site's hash; the
  store then holds a hash at that key with every field of the flat record, as a string,
  and the geo index holds the site's identifier as a member, scored with the position
  of the site's longitude and latitude. Both writes have taken place.
\<close>

theorem insert_success_writes_both:
  assumes "insert en kg site st = (Inr key, st')"
  shows "key = getSiteHashKey kg (toString (getProp site ''id'')) \<and>
     (\<exists>flat h. flatten site = Inr flat \<and> vals st' key = Some (RHash h) \<and>
        (\<forall>f v. flat f = Some v \<longrightarrow> h f = Some (toString v))) \<and>
     (\<exists>vlng vlat score z.
        hasOwnProperty site ''coordinate'' = Inr True \<and>
        getMember (getProp site ''coordinate'') ''lng'' = Inr vlng \<and>
        getMember (getProp site ''coordinate'') ''lat'' = Inr vlat \<and>
        geoEncode en (toString vlng) (toString vlat) = Some score \<and>
        vals st' (getSiteGeoKey kg) = Some (RZSet z) \<and>
        map_of z (toString (getProp site ''id'')) = Some score)"
proof -
  let ?k = "getSiteHashKey kg (toString (getProp site ''id''))"
  let ?m = "toString (getProp site ''id'')"
  from assms obtain flat where f: "flatten site = Inr flat"
    by (cases "flatten site") (auto simp: insert_def)
  from assms f obtain r1 st1 where h: "execCommand en (HMSET ?k flat) st = (Inr r1, st1)"
    by (cases "execCommand en (HMSET ?k flat) st"; cases "fst (execCommand en (HMSET ?k flat) st)")
       (auto simp: insert_def Let_def)
  from assms f h have c: "hasOwnProperty site ''coordinate'' = Inr True"
    by (cases "hasOwnProperty site ''coordinate''") (auto simp: insert_def Let_def split: if_splits)
  from assms f h c obtain vlng where g1: "getMember (getProp site ''coordinate'') ''lng'' = Inr vlng"
    by (cases "getMember (getProp site ''coordinate'') ''lng''") (auto simp: insert_def Let_def)
  from assms f h c g1 obtain vlat where g2: "getMember (getProp site ''coordinate'') ''lat'' = Inr vlat"
    by (cases "getMember (getProp site ''coordinate'') ''lat''") (auto simp: insert_def Let_def)
  let ?cmd = "GEOADD (getSiteGeoKey kg) (toString vlng) (toString vlat) ?m"
  from assms f h c g1 g2 obtain r2 where g: "execCommand en ?cmd st1 = (Inr r2, st')" and k: "key = ?k"
    by (cases "execCommand en ?cmd st1"; cases "fst (execCommand en ?cmd st1)")
       (auto simp: insert_def Let_def simp del: execCommand.simps)
  from HMSET_success [OF h] obtain hh where
    hh: "vals st1 ?k = Some (RHash hh)" "\<forall>f v. flat f = Some v \<longrightarrow> hh f = Some (toString v)"
    by blast
  from GEOADD_success [OF g] obtain score z where
    z: "geoEncode en (toString vlng) (toString vlat) = Some score"
       "vals st' (getSiteGeoKey kg) = Some (RZSet z)" "map_of z ?m = Some score"
       "\<forall>h. vals st1 (getSiteGeoKey kg) \<noteq> Some (RHash h)"
       "\<forall>k'. k' \<noteq> getSiteGeoKey kg \<longrightarrow> vals st' k' = vals st1 k'"
    by blast
  from hh(1) z(4) have ne: "?k \<noteq> getSiteGeoKey kg" by auto
  with z(5) hh(1) have "vals st' ?k = Some (RHash hh)" by simp
  with f hh(2) k c g1 g2 z(1,2,3) show ?thesis by blast
qed

theorem insert_success_writes_both_witness:
  "fst (insert exampleEnv exampleKeys exampleSite emptyStore) = Inr ''sites:info:1'' \<and>
   (\<exists>h. vals (snd (insert exampleEnv exampleKeys exampleSite emptyStore)) ''sites:info:1'' = Some (RHash h) \<and>
        h ''id'' = Some ''1'' \<and> h ''lat'' = Some ''37.7'' \<and> h ''lng'' = Some ''-122.4'') \<and>
   (\<exists>z. vals (snd (insert exampleEnv exampleKeys exampleSite emptyStore)) ''sites:geo'' = Some (RZSet z) \<and>
        map_of z ''1'' = Some 1224)"
proof -
  let ?st' = "snd (insert exampleEnv exampleKeys exampleSite emptyStore)"
  have e: "insert exampleEnv exampleKeys exampleSite emptyStore = (Inr ''sites:info:1'', ?st')"
    using insert_exampleSite by (simp add: prod_eq_iff)
  have i: "toString (getProp exampleSite ''id'') = ''1''"
    by (simp add: getProp_def exampleSite_def)
  have g: "getSiteGeoKey exampleKeys = ''sites:geo''" by (simp add: exampleKeys_def)
  have m: "getMember (getProp exampleSite ''coordinate'') ''lng'' = Inr (Num (Finite True ''1224'' 3))"
      "getMember (getProp exampleSite ''coordinate'') ''lat'' = Inr (Num (Finite False ''377'' 2))"
    by (simp_all add: getProp_def exampleSite_def)
  from insert_success_writes_both [OF e]
  obtain flat h vlng vlat score z where
    f: "flatten exampleSite = Inr flat"
    and h: "vals ?st' ''sites:info:1'' = Some (RHash h)" "\<forall>f v. flat f = Some v \<longrightarrow> h f = Some (toString v)"
    and v: "getMember (getProp exampleSite ''coordinate'') ''lng'' = Inr vlng"
      "getMember (getProp exampleSite ''coordinate'') ''lat'' = Inr vlat"
    and s: "geoEncode exampleEnv (toString vlng) (toString vlat) = Some score"
    and z: "vals ?st' ''sites:geo'' = Some (RZSet z)" "map_of z ''1'' = Some score"
    unfolding i g by blast
  from v m have vv: "vlng = Num (Finite True ''1224'' 3)" "vlat = Num (Finite False ''377'' 2)" by simp_all
  from s have sc: "score = 1224" unfolding vv using exampleEnv_geoEncode_example by simp
  from f have fl: "flat ''id'' = Some (Num (Finite False ''1'' 1))"
      "flat ''lat'' = Some (Num (Finite False ''377'' 2))" "flat ''lng'' = Some (Num (Finite True ''1224'' 3))"
    unfolding exampleSite_flatten by (auto simp: exampleSite_def)
  from h(2) fl have "h ''id'' = Some ''1''" "h ''lat'' = Some ''37.7''" "h ''lng'' = Some ''-122.4''"
    by auto
  with insert_exampleSite h(1) z sc show ?thesis by blast
qed

lemma insert_ok:
  assumes f: "flatten site = Inr flat" and ne: "flat \<noteq> Map.empty"
    and hk: "hk = getSiteHashKey kg (siteId site)"
    and nz: "\<forall>z. vals st hk \<noteq> Some (RZSet z)"
    and c: "hasOwnProperty site ''coordinate'' = Inr True"
    and lng: "getMember (getProp site ''coordinate'') ''lng'' = Inr vlng"
    and lat: "getMember (getProp site ''coordinate'') ''lat'' = Inr vlat"
    and ge: "geoEncode en (toString vlng) (toString vlat) = Some score"
    and d: "hk \<noteq> getSiteGeoKey kg"
    and nh: "\<forall>h. vals st (getSiteGeoKey kg) \<noteq> Some (RHash h)"
  shows "insert en kg site st =
    (Inr hk,
     st\<lparr>vals := (vals st)
       (hk \<mapsto> RHash ((case vals st hk of Some (RHash h) \<Rightarrow> h | _ \<Rightarrow> Map.empty)
                       ++ (map_option toString \<circ> flat)),
        getSiteGeoKey kg \<mapsto> RZSet (AList.update (siteId site) score
           (case vals st (getSiteGeoKey kg) of Some (RZSet z) \<Rightarrow> z | _ \<Rightarrow> [])))\<rparr>)"
proof -
  let ?h = "RHash ((case vals st hk of Some (RHash h) \<Rightarrow> h | _ \<Rightarrow> Map.empty)
                       ++ (map_option toString \<circ> flat))"
  let ?st1 = "st\<lparr>vals := (vals st)(hk \<mapsto> ?h)\<rparr>"
  have h: "execCommand en (HMSET hk flat) st = (Inr (StatusReply ''OK''), ?st1)"
    using ne nz by (auto split: option.splits rvalue.splits)
  let ?c = "GEOADD (getSiteGeoKey kg) (toString vlng) (toString vlat) (siteId site)"
  let ?z = "case vals st (getSiteGeoKey kg) of Some (RZSet z) \<Rightarrow> z | _ \<Rightarrow> []"
  have v: "vals ?st1 (getSiteGeoKey kg) = vals st (getSiteGeoKey kg)"
    using d by simp
  have g: "\<exists>r. execCommand en ?c ?st1 =
      (Inr r, ?st1\<lparr>vals := (vals ?st1)(getSiteGeoKey kg \<mapsto> RZSet (AList.update (siteId site) score ?z))\<rparr>)"
    using nh ge v by (auto split: option.splits rvalue.splits)
  then obtain r where g': "execCommand en ?c ?st1 =
      (Inr r, ?st1\<lparr>vals := (vals ?st1)(getSiteGeoKey kg \<mapsto> RZSet (AList.update (siteId site) score ?z))\<rparr>)"
    by blast
  show ?thesis
    unfolding insert_def f Let_def sum.case hk [symmetric] siteId_def [symmetric] h prod.case lng lat g'
    using c by simp
qed



lemma exampleSiteMorePanels_facts:
  "flatten exampleSiteMorePanels =
     Inr ((exampleSiteMorePanels(''lat'' \<mapsto> Num (Finite False ''377'' 2), ''lng'' \<mapsto> Num (Finite True ''1224'' 3)))
            (''coordinate'' := None))"
  "siteId exampleSiteMorePanels = ''1''"
  "hasOwnProperty exampleSiteMorePanels ''coordinate'' = Inr True"
  "getMember (getProp exampleSiteMorePanels ''coordinate'') ''lng'' = Inr (Num (Finite True ''1224'' 3))"
  "getMember (getProp exampleSiteMorePanels ''coordinate'') ''lat'' = Inr (Num (Finite False ''377'' 2))"
  by (simp_all add: flatten_def hasOwnProperty_def getProp_def exampleSiteMorePanels_def
      exampleSite_def siteId_def)

lemma exampleSite_facts:
  "siteId exampleSite = ''1''"
  "hasOwnProperty exampleSite ''coordinate'' = Inr True"
  "getMember (getProp exampleSite ''coordinate'') ''lng'' = Inr (Num (Finite True ''1224'' 3))"
  "getMember (getProp exampleSite ''coordinate'') ''lat'' = Inr (Num (Finite False ''377'' 2))"
  by (simp_all add: hasOwnProperty_def getProp_def exampleSite_def siteId_def)

lemma flat_nonempty: "flat ''lat'' = Some v \<Longrightarrow> flat \<noteq> Map.empty"
  by auto


section \<open>The unit of a radius\<close>

lemma toLowerCase_idem: "toLowerCase (toLowerCase u) = toLowerCase u"
proof -
  let ?f = "\<lambda>c. case map_of (zip ''ABCDEFGHIJKLMNOPQRSTUVWXYZ'' ''abcdefghijklmnopqrstuvwxyz'') c of
                 None \<Rightarrow> c | Some l \<Rightarrow> l"
  have "?f (?f c) = ?f c" for c
    by simp
  then show ?thesis
    by (simp add: toLowerCase_def)
qed

text \<open>
  Claim C9. \<open>findByGeo\<close> and \<open>findByGeoWithExcessCapacity\<close> give the same result and
  the same store for a unit and for its lower-case form, whatever the other arguments:
  the unit reaches the store in lower case only. So \<open>KM\<close> and \<open>km\<close>, or \<open>Mi\<close> and
  \<open>mi\<close>, are the same query.
\<close>

theorem unit_case_insensitive:
  "findByGeo en kg lat lng radius radiusUnit st =
     findByGeo en kg lat lng radius (toLowerCase radiusUnit) st \<and>
   findByGeoWithExcessCapacity en kg lat lng radius radiusUnit stg =
     findByGeoWithExcessCapacity en kg lat lng radius (toLowerCase radiusUnit) stg \<and>
   findByGeo en kg lat lng radius ''KM'' st = findByGeo en kg lat lng radius ''km'' st \<and>
   findByGeo en kg lat lng radius ''Mi'' st = findByGeo en kg lat lng radius ''mi'' st \<and>
   findByGeoWithExcessCapacity en kg lat lng radius ''KM'' stg =
     findByGeoWithExcessCapacity en kg lat lng radius ''km'' stg \<and>
   findByGeoWithExcessCapacity en kg lat lng radius ''Mi'' stg =
     findByGeoWithExcessCapacity en kg lat lng radius ''mi'' stg"
proof -
  have km: "toLowerCase ''KM'' = toLowerCase ''km''" and mi: "toLowerCase ''Mi'' = toLowerCase ''mi''"
    by (simp_all add: toLowerCase_def)
  show ?thesis
    by (simp add: findByGeo_def findByGeoWithExcessCapacity_def setOperationsPipeline_def
        toLowerCase_idem km mi del: execCommand.simps execBatch.simps)
qed

section \<open>What the operations change in the store\<close>

lemma HGETALL_store: "snd (execCommand en (HGETALL k) st) = st"
  by (simp split: option.splits rvalue.splits)

lemma execBatch_HGETALL_store:
  "snd (execBatch en (map (\<lambda>siteId. HGETALL (f siteId)) ids) st) = st"
proof (induction ids)
  case Nil
  then show ?case by simp
next
  case (Cons a ids)
  have "snd (execCommand en (HGETALL (f a)) st) = st" by (rule HGETALL_store)
  then obtain r where r: "execCommand en (HGETALL (f a)) st = (r, st)"
    by (cases "execCommand en (HGETALL (f a)) st") auto
  show ?case
    using Cons.IH
    by (auto simp: r split: prod.splits simp del: execCommand.simps)
qed

lemma findByGeo_loop_store: "snd (findByGeo_loop en kg ids sites st) = st"
proof (induction ids arbitrary: sites)
  case Nil
  then show ?case by simp
next
  case (Cons a ids)
  have "snd (execCommand en (HGETALL (getSiteHashKey kg a)) st) = st" by (rule HGETALL_store)
  then obtain r where r: "execCommand en (HGETALL (getSiteHashKey kg a)) st = (r, st)"
    by (cases "execCommand en (HGETALL (getSiteHashKey kg a)) st") auto
  show ?case
    using Cons.IH
    by (auto simp: r Let_def split: sum.splits simp del: execCommand.simps)
qed

lemma findByGeoWithExcessCapacity_loop_eq:
  "findByGeoWithExcessCapacity_loop en kg ids sites st = findByGeo_loop en kg ids sites st"
proof (induction ids arbitrary: sites st)
  case Nil
  then show ?case by simp
next
  case (Cons a ids)
  then show ?case
    by (auto simp: Let_def split: prod.splits sum.splits simp del: execCommand.simps)
qed

lemma findById_store: "snd (findById en kg ident st) = st"
proof -
  let ?k = "getSiteHashKey kg (toString ident)"
  have "snd (execCommand en (HGETALL ?k) st) = st" by (rule HGETALL_store)
  then obtain r where r: "execCommand en (HGETALL ?k) st = (r, st)"
    by (cases "execCommand en (HGETALL ?k) st") auto
  show ?thesis
    by (simp add: findById_def r Let_def split: sum.splits del: execCommand.simps)
qed

lemma ZRANGE_store: "snd (execCommand en (ZRANGE k a b) st) = st"
  by (simp split: option.splits rvalue.splits)

lemma GEORADIUS_store: "snd (execCommand en (GEORADIUS k lng lat r u) st) = st"
  by (simp split: option.splits rvalue.splits)

lemma ZRANGEBYSCORE_store: "snd (execCommand en (ZRANGEBYSCORE k m) st) = st"
  by (simp split: option.splits rvalue.splits)

lemma findAll_store: "snd (findAll en kg st) = st"
proof -
  let ?c = "ZRANGE (getSiteGeoKey kg) 0 (- 1)"
  have "snd (execCommand en ?c st) = st" by (rule ZRANGE_store)
  then obtain r where r: "execCommand en ?c st = (r, st)"
    by (cases "execCommand en ?c st") auto
  have b: "execBatch en (map (\<lambda>siteId. HGETALL (getSiteHashKey kg siteId)) ids) st = (rs, st') \<Longrightarrow> st' = st"
    for ids rs st'
    using execBatch_HGETALL_store [of en "getSiteHashKey kg" ids st] by simp
  show ?thesis
    by (auto simp: findAll_def r Let_def split: sum.splits prod.splits simp del: execCommand.simps dest: b)
qed

lemma findByGeo_store: "snd (findByGeo en kg lat lng radius u st) = st"
proof -
  let ?c = "GEORADIUS (getSiteGeoKey kg) (toString lng) (toString lat) (toString radius) (toLowerCase u)"
  have "snd (execCommand en ?c st) = st" by (rule GEORADIUS_store)
  then obtain r where r: "execCommand en ?c st = (r, st)"
    by (cases "execCommand en ?c st") auto
  show ?thesis
    using findByGeo_loop_store
    by (auto simp: findByGeo_def r split: sum.splits simp del: execCommand.simps)
qed

lemma HMSET_effect:
  "ttl (snd (execCommand en (HMSET k flat) st)) = ttl st \<and>
   (\<forall>k'. k' \<noteq> k \<longrightarrow> vals (snd (execCommand en (HMSET k flat) st)) k' = vals st k') \<and>
   (\<forall>k'. vals st k' \<noteq> None \<longrightarrow> vals (snd (execCommand en (HMSET k flat) st)) k' \<noteq> None)"
  by (auto split: option.splits rvalue.splits)

lemma GEOADD_effect:
  "ttl (snd (execCommand en (GEOADD k lng lat m) st)) = ttl st \<and>
   (\<forall>k'. k' \<noteq> k \<longrightarrow> vals (snd (execCommand en (GEOADD k lng lat m) st)) k' = vals st k') \<and>
   (\<forall>k'. vals st k' \<noteq> None \<longrightarrow> vals (snd (execCommand en (GEOADD k lng lat m) st)) k' \<noteq> None)"
  by (auto split: option.splits rvalue.splits)

lemma insert_effect:
  "ttl (snd (insert en kg site st)) = ttl st \<and>
   (\<forall>k. k \<noteq> getSiteHashKey kg (toString (getProp site ''id'')) \<and> k \<noteq> getSiteGeoKey kg \<longrightarrow>
        vals (snd (insert en kg site st)) k = vals st k) \<and>
   (\<forall>k. vals st k \<noteq> None \<longrightarrow> vals (snd (insert en kg site st)) k \<noteq> None)"
proof -
  let ?hk = "getSiteHashKey kg (toString (getProp site ''id''))"
  let ?P = "\<lambda>s. ttl s = ttl st \<and>
     (\<forall>k. k \<noteq> ?hk \<and> k \<noteq> getSiteGeoKey kg \<longrightarrow> vals s k = vals st k) \<and>
     (\<forall>k. vals st k \<noteq> None \<longrightarrow> vals s k \<noteq> None)"
  have P0: "?P st" by simp
  have P1: "?P (snd (execCommand en (HMSET ?hk flat) st))" for flat
    using HMSET_effect [of en ?hk flat st] by (simp del: execCommand.simps)
  have P2: "?P (snd (execCommand en (GEOADD (getSiteGeoKey kg) a b m)
                        (snd (execCommand en (HMSET ?hk flat) st))))" for flat a b m
    using HMSET_effect [of en ?hk flat st]
      GEOADD_effect [of en "getSiteGeoKey kg" a b m "snd (execCommand en (HMSET ?hk flat) st)"]
    by (simp del: execCommand.simps)
  have "?P (snd (insert en kg site st))"
  proof (cases "flatten site")
    case (Inl e)
    then show ?thesis using P0 by (simp add: insert_def)
  next
    case (Inr flat)
    obtain r1 st1 where h: "execCommand en (HMSET ?hk flat) st = (r1, st1)"
      by (cases "execCommand en (HMSET ?hk flat) st") auto
    from P1 [of flat] h have p1: "?P st1" by (simp del: execCommand.simps)
    have p2: "?P (snd (execCommand en (GEOADD (getSiteGeoKey kg) a b m) st1))" for a b m
      using P2 [of a b m flat] h by (simp del: execCommand.simps)
    show ?thesis
    proof (cases r1)
      case (Inl e)
      then show ?thesis
        unfolding insert_def \<open>flatten site = Inr flat\<close> Let_def sum.case h prod.case
        using p1 by simp
    next
      case r1: (Inr x)
      consider (err) e where "hasOwnProperty site ''coordinate'' = Inl e"
        | (no) "hasOwnProperty site ''coordinate'' = Inr False"
        | (yes) "hasOwnProperty site ''coordinate'' = Inr True"
        by (cases "hasOwnProperty site ''coordinate''") auto
      then show ?thesis
      proof cases
        case err
        then show ?thesis
          unfolding insert_def \<open>flatten site = Inr flat\<close> Let_def sum.case h prod.case r1
          using p1 by simp
      next
        case no
        then show ?thesis
          unfolding insert_def \<open>flatten site = Inr flat\<close> Let_def sum.case h prod.case r1
          using p1 by simp
      next
        case True: yes
        show ?thesis
        proof (cases "getMember (getProp site ''coordinate'') ''lng''")
          case (Inl e)
          then show ?thesis
            unfolding insert_def \<open>flatten site = Inr flat\<close> Let_def sum.case h prod.case r1
            using p1 True by simp
        next
          case lng: (Inr vlng)
          show ?thesis
          proof (cases "getMember (getProp site ''coordinate'') ''lat''")
            case (Inl e)
            then show ?thesis
              unfolding insert_def \<open>flatten site = Inr flat\<close> Let_def sum.case h prod.case r1 lng
              using p1 True by simp
          next
            case lat: (Inr vlat)
            let ?c = "GEOADD (getSiteGeoKey kg) (toString vlng) (toString vlat) (toString (getProp site ''id''))"
            obtain r2 st2 where g: "execCommand en ?c st1 = (r2, st2)"
              by (cases "execCommand en ?c st1") auto
            from p2 [of "toString vlng" "toString vlat" "toString (getProp site ''id'')"] g
            have p: "?P st2" by (simp del: execCommand.simps)
            show ?thesis
              unfolding insert_def \<open>flatten site = Inr flat\<close> Let_def sum.case h prod.case r1 lng lat g
              using p True by (cases r2) simp_all
          qed
        qed
      qed
    qed
  qed
  then show ?thesis by simp
qed

lemma storeZSet_frame:
  "(\<forall>k. k \<noteq> dest \<longrightarrow> vals (storeZSet st dest z) k = vals st k \<and> ttl (storeZSet st dest z) k = ttl st k)"
  by (simp add: storeZSet_def)

lemma GEORADIUS_STORE_frame:
  "\<forall>k. k \<noteq> dest \<longrightarrow>
     vals (snd (execCommand en (GEORADIUS_STORE key lng lat r u dest) st)) k = vals st k \<and>
     ttl (snd (execCommand en (GEORADIUS_STORE key lng lat r u dest) st)) k = ttl st k"
  by (auto simp: storeZSet_def Let_def split: option.splits rvalue.splits)

lemma ZINTERSTORE_frame:
  "\<forall>k. k \<noteq> dest \<longrightarrow>
     vals (snd (execCommand en (ZINTERSTORE dest k1 k2 w1 w2) st)) k = vals st k \<and>
     ttl (snd (execCommand en (ZINTERSTORE dest k1 k2 w1 w2) st)) k = ttl st k"
  by (auto simp: storeZSet_def Let_def split: option.splits rvalue.splits)

lemma EXPIRE_effect:
  "vals (snd (execCommand en (EXPIRE key secs) st)) = vals st \<and>
   (\<forall>k. k \<noteq> key \<longrightarrow> ttl (snd (execCommand en (EXPIRE key secs) st)) k = ttl st k) \<and>
   (vals st key \<noteq> None \<longrightarrow> ttl (snd (execCommand en (EXPIRE key secs) st)) key = Some secs)"
  by auto

lemma setOperationsPipeline_effect:
  assumes "execBatch en (setOperationsPipeline kg lat lng radius u t1 t2) st = (rs, st1)"
  shows "(\<forall>k. k \<noteq> t1 \<and> k \<noteq> t2 \<longrightarrow> vals st1 k = vals st k \<and> ttl st1 k = ttl st k) \<and>
         (vals st1 t1 \<noteq> None \<longrightarrow> ttl st1 t1 = Some 30) \<and>
         (vals st1 t2 \<noteq> None \<longrightarrow> ttl st1 t2 = Some 30)"
proof -
  let ?c1 = "GEORADIUS_STORE (getSiteGeoKey kg) (toString lng) (toString lat) (toString radius) (toLowerCase u) t1"
  let ?c2 = "ZINTERSTORE t2 t1 (getCapacityRankingKey kg) 0 1"
  let ?sa = "snd (execCommand en ?c1 st)"
  let ?sb = "snd (execCommand en ?c2 ?sa)"
  let ?sc = "snd (execCommand en (EXPIRE t1 30) ?sb)"
  let ?sd = "snd (execCommand en (EXPIRE t2 30) ?sc)"
  have e: "st1 = ?sd"
    using assms
    by (simp add: setOperationsPipeline_def split: prod.splits del: execCommand.simps)
  note a = GEORADIUS_STORE_frame [of t1 en "getSiteGeoKey kg" "toString lng" "toString lat" "toString radius" "toLowerCase u" st]
  note b = ZINTERSTORE_frame [of t2 en t1 "getCapacityRankingKey kg" 0 1 ?sa]
  note c = EXPIRE_effect [of en t1 30 ?sb]
  note d = EXPIRE_effect [of en t2 30 ?sc]
  have 1: "\<forall>k. k \<noteq> t1 \<and> k \<noteq> t2 \<longrightarrow> vals ?sd k = vals st k \<and> ttl ?sd k = ttl st k"
    using a b c d by (simp del: execCommand.simps)
  have 2: "vals ?sd t1 \<noteq> None \<longrightarrow> ttl ?sd t1 = Some 30"
    using c d by (cases "t1 = t2") (auto simp del: execCommand.simps)
  have 3: "vals ?sd t2 \<noteq> None \<longrightarrow> ttl ?sd t2 = Some 30"
    using c d by (auto simp del: execCommand.simps)
  show ?thesis unfolding e using 1 2 3 by blast
qed

lemma findByGeoWithExcessCapacity_store:
  assumes t: "getTemporaryKey kg g = (t1, g1)" "getTemporaryKey kg g1 = (t2, g2)"
    and r: "findByGeoWithExcessCapacity en kg lat lng radius u (st, g) = (res, st', g')"
  shows "\<exists>rs. execBatch en (setOperationsPipeline kg lat lng radius u t1 t2) st = (rs, st') \<and> g' = g2"
proof -
  obtain rs st1 where b: "execBatch en (setOperationsPipeline kg lat lng radius u t1 t2) st = (rs, st1)"
    by (cases "execBatch en (setOperationsPipeline kg lat lng radius u t1 t2) st") auto
  let ?c = "ZRANGEBYSCORE t2 capacityThreshold"
  have "snd (execCommand en ?c st1) = st1" by (rule ZRANGEBYSCORE_store)
  then obtain q where q: "execCommand en ?c st1 = (q, st1)"
    by (cases "execCommand en ?c st1") auto
  have l: "findByGeoWithExcessCapacity_loop en kg ids [] st1 = (x, s) \<Longrightarrow> s = st1" for ids x s
    using findByGeo_loop_store [of en kg ids "[]" st1]
    by (simp add: findByGeoWithExcessCapacity_loop_eq)
  from r have "st' = st1 \<and> g' = g2"
    unfolding findByGeoWithExcessCapacity_def prod.case t b q
    by (auto split: sum.splits prod.splits simp del: execCommand.simps dest: l)
  with b show ?thesis by blast
qed

section \<open>Sites in a radius with excess capacity\<close>

lemma loadZSet_storeZSet: "loadZSet (storeZSet st d z) d = Some z"
  by (simp add: loadZSet_def storeZSet_def)

lemma loadZSet_storeZSet_other: "k \<noteq> d \<Longrightarrow> loadZSet (storeZSet st d z) k = loadZSet st k"
  by (simp add: loadZSet_def storeZSet_def)

lemma loadZSet_cong: "vals st1 k = vals st k \<Longrightarrow> loadZSet st1 k = loadZSet st k"
  by (simp add: loadZSet_def)

lemma GEORADIUS_STORE_result:
  assumes "loadZSet st gk = Some geo" "georadiusTest en lng lat r u = Some inside"
    "vals st dest = None"
  shows "loadZSet (snd (execCommand en (GEORADIUS_STORE gk lng lat r u dest) st)) dest
           = Some (filter (\<lambda>(m, g). inside g) geo)"
proof (cases "vals st gk")
  case None
  with assms(1) have "geo = []" by (simp add: loadZSet_def)
  with None assms(3) show ?thesis by (simp add: loadZSet_def)
next
  case (Some v)
  with assms(1) have v: "v = RZSet geo"
    by (cases v) (simp_all add: loadZSet_def)
  show ?thesis
    using Some v assms(2) by (simp add: Let_def loadZSet_storeZSet)
qed

lemma ZINTERSTORE_result:
  assumes "loadZSet st k1 = Some z1" "loadZSet st k2 = Some z2"
  shows "loadZSet (snd (execCommand en (ZINTERSTORE dest k1 k2 w1 w2) st)) dest
           = Some (intersectWeighted z1 z2 w1 w2)"
  using assms by (simp add: loadZSet_storeZSet Let_def)

lemma setOperationsPipeline_result:
  assumes geo: "loadZSet st (getSiteGeoKey kg) = Some geo"
    and rank: "loadZSet st (getCapacityRankingKey kg) = Some rank"
    and test: "georadiusTest en (toString lng) (toString lat) (toString radius) (toLowerCase u) = Some inside"
    and fresh: "vals st t1 = None"
    and d: "t1 \<noteq> getCapacityRankingKey kg" "t1 \<noteq> t2"
    and b: "execBatch en (setOperationsPipeline kg lat lng radius u t1 t2) st = (rs, st1)"
  shows "loadZSet st1 t2 = Some (intersectWeighted (filter (\<lambda>(m, g). inside g) geo) rank 0 1) \<and>
         loadZSet st1 t1 = Some (filter (\<lambda>(m, g). inside g) geo)"
proof -
  let ?c1 = "GEORADIUS_STORE (getSiteGeoKey kg) (toString lng) (toString lat) (toString radius) (toLowerCase u) t1"
  let ?c2 = "ZINTERSTORE t2 t1 (getCapacityRankingKey kg) 0 1"
  let ?sa = "snd (execCommand en ?c1 st)"
  let ?sb = "snd (execCommand en ?c2 ?sa)"
  let ?sc = "snd (execCommand en (EXPIRE t1 30) ?sb)"
  let ?sd = "snd (execCommand en (EXPIRE t2 30) ?sc)"
  have e: "st1 = ?sd"
    using b
    by (simp add: setOperationsPipeline_def split: prod.splits del: execCommand.simps)
  have a1: "loadZSet ?sa t1 = Some (filter (\<lambda>(m, g). inside g) geo)"
    by (rule GEORADIUS_STORE_result [OF geo test fresh])
  have "vals ?sa (getCapacityRankingKey kg) = vals st (getCapacityRankingKey kg)"
    using GEORADIUS_STORE_frame [of t1 en "getSiteGeoKey kg" "toString lng" "toString lat" "toString radius" "toLowerCase u" st] d(1)
    by (simp del: execCommand.simps)
  then have a2: "loadZSet ?sa (getCapacityRankingKey kg) = Some rank"
    using rank by (simp add: loadZSet_def)
  have b1: "loadZSet ?sb t2 = Some (intersectWeighted (filter (\<lambda>(m, g). inside g) geo) rank 0 1)"
    by (rule ZINTERSTORE_result [OF a1 a2])
  have "vals ?sd = vals ?sb"
    using EXPIRE_effect [of en t1 30 ?sb] EXPIRE_effect [of en t2 30 ?sc]
    by (simp del: execCommand.simps)
  then have v: "loadZSet ?sd t2 = loadZSet ?sb t2" "loadZSet ?sd t1 = loadZSet ?sb t1"
    by (simp_all add: loadZSet_def)
  have "vals ?sb t1 = vals ?sa t1"
    using ZINTERSTORE_frame [of t2 en t1 "getCapacityRankingKey kg" 0 1 ?sa] d(2)
    by (simp del: execCommand.simps)
  then have "loadZSet ?sb t1 = loadZSet ?sa t1" by (simp add: loadZSet_def)
  with b1 a1 v e show ?thesis by simp
qed

lemma ZRANGEBYSCORE_loadZSet:
  assumes "loadZSet st k = Some z"
  shows "execCommand en (ZRANGEBYSCORE k smin) st =
    (Inr (ArrayReply (map fst (filter (\<lambda>(m, s). smin \<le> s) (zsetOrder z)))), st)"
  using assms
  by (auto simp: loadZSet_def zsetOrder_def split: option.splits rvalue.splits)

lemma HGETALL_storedSite:
  assumes "\<forall>z. vals st k \<noteq> Some (RZSet z)"
  shows "\<exists>r. execCommand en (HGETALL k) st = (Inr r, st) \<and> replyToObject r = storedSite st k"
  using assms
  by (auto simp: storedSite_def split: option.splits rvalue.splits)

lemma findByGeo_loop_result:
  assumes "\<forall>m \<in> set ids. \<forall>z. vals st (getSiteHashKey kg m) \<noteq> Some (RZSet z)"
    and "\<forall>m \<in> set ids. \<forall>h. storedSite st (getSiteHashKey kg m) = Some h \<longrightarrow> h ''hasOwnProperty'' = None"
  shows "\<exists>ss. findByGeo_loop en kg ids sites st = (Inr (sites @ ss), st) \<and>
     map Inr ss = map (\<lambda>h. remap (toDouble en) (Some h))
                    (List.map_filter (\<lambda>m. storedSite st (getSiteHashKey kg m)) ids)"
  using assms
proof (induction ids arbitrary: sites)
  case Nil
  then show ?case by (simp add: List.map_filter_simps)
next
  case (Cons a ids)
  from Cons.prems have "\<forall>z. vals st (getSiteHashKey kg a) \<noteq> Some (RZSet z)" by simp
  from HGETALL_storedSite [OF this, of en] obtain r where
    r: "execCommand en (HGETALL (getSiteHashKey kg a)) st = (Inr r, st)"
       "replyToObject r = storedSite st (getSiteHashKey kg a)"
    by blast
  from Cons.prems have p: "\<forall>m \<in> set ids. \<forall>z. vals st (getSiteHashKey kg m) \<noteq> Some (RZSet z)"
    and q: "\<forall>m \<in> set ids. \<forall>h. storedSite st (getSiteHashKey kg m) = Some h \<longrightarrow> h ''hasOwnProperty'' = None"
    by simp_all
  show ?case
  proof (cases "storedSite st (getSiteHashKey kg a)")
    case None
    from Cons.IH [OF p q, of sites] obtain ss where
      ss: "findByGeo_loop en kg ids sites st = (Inr (sites @ ss), st)"
        "map Inr ss = map (\<lambda>h. remap (toDouble en) (Some h))
                    (List.map_filter (\<lambda>m. storedSite st (getSiteHashKey kg m)) ids)"
      by blast
    have "findByGeo_loop en kg (a # ids) sites st = (Inr (sites @ ss), st)"
      using r None ss(1) by (simp del: execCommand.simps)
    with ss(2) None show ?thesis by (simp add: List.map_filter_simps)
  next
    case (Some h)
    with Cons.prems(2) have "h ''hasOwnProperty'' = None" by simp
    from remap_plain [where h = h, OF this]
    obtain s where s: "remap (toDouble en) (Some h) = Inr s" by blast
    from Cons.IH [OF p q, of "sites @ [s]"] obtain ss where
      ss: "findByGeo_loop en kg ids (sites @ [s]) st = (Inr ((sites @ [s]) @ ss), st)"
        "map Inr ss = map (\<lambda>h. remap (toDouble en) (Some h))
                    (List.map_filter (\<lambda>m. storedSite st (getSiteHashKey kg m)) ids)"
      by blast
    have "findByGeo_loop en kg (a # ids) sites st = (Inr (sites @ (s # ss)), st)"
      using r Some s ss(1) by (simp del: execCommand.simps remap.simps)
    moreover have "map Inr (s # ss) = map (\<lambda>h. remap (toDouble en) (Some h))
                    (List.map_filter (\<lambda>m. storedSite st (getSiteHashKey kg m)) (a # ids))"
      using ss(2) Some s by (simp add: List.map_filter_simps del: remap.simps)
    ultimately show ?thesis by blast
  qed
qed

lemma findByGeo_loop_throws:
  assumes "\<forall>z. vals st (getSiteHashKey kg a) \<noteq> Some (RZSet z)"
    and "storedSite st (getSiteHashKey kg a) = Some h" "h ''hasOwnProperty'' \<noteq> None"
  shows "findByGeo_loop en kg (a # ids) sites st = (Inl TypeError, st)"
proof -
  from HGETALL_storedSite [OF assms(1), of en] obtain r where
    r: "execCommand en (HGETALL (getSiteHashKey kg a)) st = (Inr r, st)"
       "replyToObject r = storedSite st (getSiteHashKey kg a)"
    by blast
  from remap_shadowed [where h = h, OF assms(3)]
  have s: "remap (toDouble en) (Some h) = Inl TypeError" .
  show ?thesis
    using r assms(2) s by (simp del: execCommand.simps remap.simps)
qed

lemma intersectWeighted_member:
  "(m, s) \<in> set (intersectWeighted z1 z2 w1 w2) \<longleftrightarrow>
     (\<exists>s1 s2. (m, s1) \<in> set z1 \<and> map_of z2 m = Some s2 \<and> s = w1 * s1 + w2 * s2)"
  by (induction z1) (auto simp: intersectWeighted_def List.map_filter_simps split: option.splits)

lemma map_fst_intersectWeighted:
  "map fst (intersectWeighted z1 z2 w1 w2) = filter (\<lambda>m. map_of z2 m \<noteq> None) (map fst z1)"
  by (induction z1) (auto simp: intersectWeighted_def List.map_filter_simps split: option.splits)

lemma distinct_map_fst_filter: "distinct (map fst z) \<Longrightarrow> distinct (map fst (filter P z))"
  by (induction z) auto

lemma distinct_map_fst_zsetOrder: "distinct (map fst z) \<Longrightarrow> distinct (map fst (zsetOrder z))"
  by (simp add: distinct_map zsetOrder_def)

lemma storedSite_cong: "vals st1 k = vals st k \<Longrightarrow> storedSite st1 k = storedSite st k"
  by (simp add: storedSite_def)

lemma excess_ids_set:
  assumes "distinct (map fst geo)"
  shows "set (map fst (filter (\<lambda>(m, s). smin \<le> s)
            (zsetOrder (intersectWeighted (filter (\<lambda>(m, p). inside p) geo) rank 0 1)))) =
     {m. \<exists>p s. map_of geo m = Some p \<and> inside p \<and> map_of rank m = Some s \<and> smin \<le> s}"
proof -
  have m: "(m, p) \<in> set geo \<longleftrightarrow> map_of geo m = Some p" for m p
    using assms by simp
  show ?thesis
    by (auto simp: zsetOrder_def intersectWeighted_member m [symmetric] image_iff) force+
qed

lemma excess_ids_distinct:
  assumes "distinct (map fst geo)"
  shows "distinct (map fst (filter (\<lambda>(m, s). smin \<le> s)
            (zsetOrder (intersectWeighted (filter (\<lambda>(m, p). inside p) geo) rank 0 1))))"
proof -
  have "distinct (map fst (filter (\<lambda>(m, p). inside p) geo))"
    by (rule distinct_map_fst_filter [OF assms])
  then have "distinct (map fst (intersectWeighted (filter (\<lambda>(m, p). inside p) geo) rank 0 1))"
    by (simp add: map_fst_intersectWeighted)
  then show ?thesis
    by (intro distinct_map_fst_filter distinct_map_fst_zsetOrder)
qed

lemma findByGeoWithExcessCapacity_ids:
  assumes t: "getTemporaryKey kg g = (t1, g1)" "getTemporaryKey kg g1 = (t2, g2)"
    and fresh: "vals st t1 = None" "t1 \<noteq> t2" "t1 \<noteq> getCapacityRankingKey kg"
    and geo: "loadZSet st (getSiteGeoKey kg) = Some geo"
    and rank: "loadZSet st (getCapacityRankingKey kg) = Some rank"
    and test: "georadiusTest en (toString lng) (toString lat) (toString radius) (toLowerCase u) = Some inside"
    and keys: "\<forall>m. getSiteHashKey kg m \<noteq> t1 \<and> getSiteHashKey kg m \<noteq> t2"
    and ids: "ids = map fst (filter (\<lambda>(m, s). capacityThreshold \<le> s)
            (zsetOrder (intersectWeighted (filter (\<lambda>(m, p). inside p) geo) rank 0 1)))"
  shows "\<exists>st1.
      findByGeoWithExcessCapacity en kg lat lng radius u (st, g) =
        (fst (findByGeo_loop en kg ids [] st1), st1, g2) \<and>
      (\<forall>m. vals st1 (getSiteHashKey kg m) = vals st (getSiteHashKey kg m)) \<and>
      loadZSet st1 t2 = Some (intersectWeighted (filter (\<lambda>(m, p). inside p) geo) rank 0 1) \<and>
      loadZSet st1 t1 = Some (filter (\<lambda>(m, p). inside p) geo)"
proof -
  obtain rs st1 where b: "execBatch en (setOperationsPipeline kg lat lng radius u t1 t2) st = (rs, st1)"
    by (cases "execBatch en (setOperationsPipeline kg lat lng radius u t1 t2) st") auto
  note LL = setOperationsPipeline_result [OF geo rank test fresh(1) fresh(3) fresh(2) b]
  from LL have L: "loadZSet st1 t2 = Some (intersectWeighted (filter (\<lambda>(m, p). inside p) geo) rank 0 1)"
    by simp
  have q: "execCommand en (ZRANGEBYSCORE t2 capacityThreshold) st1 = (Inr (ArrayReply ids), st1)"
    unfolding ids by (rule ZRANGEBYSCORE_loadZSet [OF L])
  from setOperationsPipeline_effect [OF b] keys
  have fr: "\<forall>m. vals st1 (getSiteHashKey kg m) = vals st (getSiteHashKey kg m)"
    by simp
  obtain res where l: "findByGeo_loop en kg ids [] st1 = (res, st1)"
    using findByGeo_loop_store [of en kg ids "[]" st1]
    by (cases "findByGeo_loop en kg ids [] st1") auto
  have "findByGeoWithExcessCapacity en kg lat lng radius u (st, g) =
        (fst (findByGeo_loop en kg ids [] st1), st1, g2)"
    unfolding findByGeoWithExcessCapacity_def prod.case t b q sum.case
      findByGeoWithExcessCapacity_loop_eq replyToArray.simps l
    by simp
  with fr LL show ?thesis by blast
qed

lemma findByGeoWithExcessCapacity_result:
  assumes t: "getTemporaryKey kg g = (t1, g1)" "getTemporaryKey kg g1 = (t2, g2)"
    and fresh: "vals st t1 = None" "t1 \<noteq> t2" "t1 \<noteq> getCapacityRankingKey kg"
    and geo: "loadZSet st (getSiteGeoKey kg) = Some geo"
    and rank: "loadZSet st (getCapacityRankingKey kg) = Some rank"
    and test: "georadiusTest en (toString lng) (toString lat) (toString radius) (toLowerCase u) = Some inside"
    and keys: "\<forall>m. getSiteHashKey kg m \<noteq> t1 \<and> getSiteHashKey kg m \<noteq> t2"
    and hashes: "\<forall>m z. vals st (getSiteHashKey kg m) \<noteq> Some (RZSet z)"
    and ids: "ids = map fst (filter (\<lambda>(m, s). capacityThreshold \<le> s)
            (zsetOrder (intersectWeighted (filter (\<lambda>(m, p). inside p) geo) rank 0 1)))"
    and plain: "\<forall>m \<in> set ids. \<forall>h. storedSite st (getSiteHashKey kg m) = Some h \<longrightarrow> h ''hasOwnProperty'' = None"
  shows "\<exists>sites st'.
      findByGeoWithExcessCapacity en kg lat lng radius u (st, g) = (Inr sites, st', g2) \<and>
      map Inr sites = map (\<lambda>h. remap (toDouble en) (Some h))
        (List.map_filter (\<lambda>m. storedSite st (getSiteHashKey kg m)) ids) \<and>
      loadZSet st' t2 = Some (intersectWeighted (filter (\<lambda>(m, p). inside p) geo) rank 0 1) \<and>
      loadZSet st' t1 = Some (filter (\<lambda>(m, p). inside p) geo)"
proof -
  from findByGeoWithExcessCapacity_ids [OF t fresh geo rank test keys ids] obtain st1 where
    c: "findByGeoWithExcessCapacity en kg lat lng radius u (st, g) =
        (fst (findByGeo_loop en kg ids [] st1), st1, g2)"
    and fr: "\<forall>m. vals st1 (getSiteHashKey kg m) = vals st (getSiteHashKey kg m)"
    and LL: "loadZSet st1 t2 = Some (intersectWeighted (filter (\<lambda>(m, p). inside p) geo) rank 0 1)"
      "loadZSet st1 t1 = Some (filter (\<lambda>(m, p). inside p) geo)"
    by blast
  have sc: "(\<lambda>m. storedSite st1 (getSiteHashKey kg m)) = (\<lambda>m. storedSite st (getSiteHashKey kg m))"
    using fr by (simp add: storedSite_def)
  from fr hashes have h1: "\<forall>m \<in> set ids. \<forall>z. vals st1 (getSiteHashKey kg m) \<noteq> Some (RZSet z)"
    by simp
  from plain have p1: "\<forall>m \<in> set ids. \<forall>h. storedSite st1 (getSiteHashKey kg m) = Some h \<longrightarrow> h ''hasOwnProperty'' = None"
    using fun_cong [OF sc] by simp
  from findByGeo_loop_result [OF h1 p1, of en "[]"] obtain ss where
    ss: "findByGeo_loop en kg ids [] st1 = (Inr ss, st1)"
      "map Inr ss = map (\<lambda>h. remap (toDouble en) (Some h))
         (List.map_filter (\<lambda>m. storedSite st1 (getSiteHashKey kg m)) ids)"
    by auto
  have "findByGeoWithExcessCapacity en kg lat lng radius u (st, g) = (Inr ss, st1, g2)"
    unfolding c ss(1) by simp
  with ss(2) LL show ?thesis unfolding sc by blast
qed

lemma intersectWeighted_score:
  "(m, s) \<in> set (intersectWeighted z1 z2 0 1) \<Longrightarrow> map_of z2 m = Some s"
  by (auto simp: intersectWeighted_member)

lemma exampleKeys_temporary:
  "getTemporaryKey exampleKeys 0 = (''tmp:0'', 1)"
  "getTemporaryKey exampleKeys 1 = (''tmp:1'', 2)"
  by (simp_all add: exampleKeys_def natToString.simps digitChar_def)

lemma exampleKeys_simps:
  "getSiteHashKey exampleKeys m = ''sites:info:'' @ m"
  "getSiteGeoKey exampleKeys = ''sites:geo''"
  "getCapacityRankingKey exampleKeys = ''sites:capacity:ranking''"
  by (simp_all add: exampleKeys_def)

lemma exampleEnv_test:
  "georadiusTest exampleEnv ''-122.4'' ''37.7'' ''10'' (toLowerCase ''KM'')
     = Some (\<lambda>g. \<bar>g - 1224\<bar> \<le> 10)"
  by (simp add: exampleEnv_def toLowerCase_def stringToNat_def digitVal_def isDigit_def)

lemma exampleGeoStore_simps:
  "vals exampleGeoStore ''tmp:0'' = None"
  "loadZSet exampleGeoStore ''sites:geo'' = Some [(''1'', 1224), (''2'', 1225), (''3'', 1300)]"
  "loadZSet exampleGeoStore ''sites:capacity:ranking'' = Some [(''1'', 0.5), (''2'', 0.1), (''3'', 0.9)]"
  "\<forall>m z. vals exampleGeoStore (''sites:info:'' @ m) \<noteq> Some (RZSet z)"
  "storedSite exampleGeoStore ''sites:info:1'' = Some (hashObject exampleHash)"
  using exampleHash_nonempty
  by (simp_all add: exampleGeoStore_def loadZSet_def storedSite_def)

lemma exampleCapacityStore_simps:
  "vals exampleCapacityStore ''tmp:0'' = None"
  "loadZSet exampleCapacityStore ''sites:geo'' = Some [(''1'', 1224), (''2'', 1225), (''3'', 1300)]"
  "loadZSet exampleCapacityStore ''sites:capacity:ranking'' = Some [(''1'', 0.2), (''2'', 0.1), (''3'', 0.9)]"
  "\<forall>m z. vals exampleCapacityStore (''sites:info:'' @ m) \<noteq> Some (RZSet z)"
  "storedSite exampleCapacityStore ''sites:info:1'' = Some (hashObject exampleHash)"
  "vals exampleCapacityStore ''sites:info:2'' = Some (RHash exampleHash2)"
  "vals exampleCapacityStore ''sites:info:3'' = Some (RHash exampleHash3)"
  using exampleHash_nonempty
  by (simp_all add: exampleCapacityStore_def loadZSet_def storedSite_def)

lemma shadowedStore_simps:
  "vals shadowedStore ''tmp:0'' = None"
  "loadZSet shadowedStore ''sites:geo'' = Some [(''5'', 1224)]"
  "loadZSet shadowedStore ''sites:capacity:ranking'' = Some [(''5'', 0.5)]"
  "\<forall>m z. vals shadowedStore (''sites:info:'' @ m) \<noteq> Some (RZSet z)"
  "storedSite shadowedStore ''sites:info:5'' = Some (hashObject shadowedHash)"
  using shadowedHash_nonempty
  by (simp_all add: shadowedStore_def loadZSet_def storedSite_def)

lemma distinct_singleton_set:
  assumes "distinct xs" "set xs = {x}"
  shows "xs = [x]"
proof (cases xs)
  case Nil
  with assms(2) show ?thesis by simp
next
  case (Cons a list)
  with assms(2) have a: "a = x" by auto
  from Cons assms a have "set list \<subseteq> {x}" "x \<notin> set list" by auto
  then have "list = []" by (cases list) auto
  with Cons a show ?thesis by simp
qed

text \<open>
  Claim C1, as stated for every store state, fails: the sites are decoded by \<open>remap\<close>,
  which throws on a hash with a field named \<open>hasOwnProperty\<close>. In the store below, site
  \<open>5\<close> is in the geo index at the position of the query and has the score \<open>0.5\<close> in the
  capacity ranking, so it is a site to return; its hash has such a field, and the call
  ends with a \<open>TypeError\<close> instead of a list of sites.
\<close>

theorem excess_capacity_throws_on_field_hasOwnProperty:
  "loadZSet shadowedStore (getSiteGeoKey exampleKeys) = Some [(''5'', 1224)] \<and>
   loadZSet shadowedStore (getCapacityRankingKey exampleKeys) = Some [(''5'', 0.5)] \<and>
   vals shadowedStore (getSiteHashKey exampleKeys ''5'') = Some (RHash shadowedHash) \<and>
   fst (findByGeoWithExcessCapacity exampleEnv exampleKeys
         (Num (Finite False ''377'' 2)) (Num (Finite True ''1224'' 3)) (Num (Finite False ''1'' 2)) ''KM''
         (shadowedStore, 0)) = Inl TypeError"
proof -
  let ?geo = "[(''5'', 1224)] :: (string \<times> real) list"
  let ?rank = "[(''5'', 0.5)] :: (string \<times> real) list"
  let ?inside = "\<lambda>g :: real. \<bar>g - 1224\<bar> \<le> 10"
  have s: "toString (Num (Finite False ''377'' 2)) = ''37.7''"
      "toString (Num (Finite True ''1224'' 3)) = ''-122.4''"
      "toString (Num (Finite False ''1'' 2)) = ''10''"
    by simp_all
  have test: "georadiusTest exampleEnv (toString (Num (Finite True ''1224'' 3)))
      (toString (Num (Finite False ''377'' 2))) (toString (Num (Finite False ''1'' 2)))
      (toLowerCase ''KM'') = Some ?inside"
    unfolding s by (rule exampleEnv_test)
  have fresh: "vals shadowedStore ''tmp:0'' = None" "''tmp:0'' \<noteq> ''tmp:1''"
      "''tmp:0'' \<noteq> getCapacityRankingKey exampleKeys"
    by (simp_all add: shadowedStore_simps exampleKeys_simps)
  have geo: "loadZSet shadowedStore (getSiteGeoKey exampleKeys) = Some ?geo"
    by (simp add: shadowedStore_simps exampleKeys_simps)
  have rank: "loadZSet shadowedStore (getCapacityRankingKey exampleKeys) = Some ?rank"
    by (simp add: shadowedStore_simps exampleKeys_simps)
  have keys: "\<forall>m. getSiteHashKey exampleKeys m \<noteq> ''tmp:0'' \<and> getSiteHashKey exampleKeys m \<noteq> ''tmp:1''"
    by (simp add: exampleKeys_simps)
  have ids: "[''5''] = map fst (filter (\<lambda>(m, s). capacityThreshold \<le> s)
            (zsetOrder (intersectWeighted (filter (\<lambda>(m, p). ?inside p) ?geo) ?rank 0 1)))"
    by (simp add: intersectWeighted_def List.map_filter_simps zsetOrder_def capacityThreshold_def)
  from findByGeoWithExcessCapacity_ids [OF exampleKeys_temporary fresh geo rank test keys ids]
  obtain st1 where
    c: "findByGeoWithExcessCapacity exampleEnv exampleKeys
         (Num (Finite False ''377'' 2)) (Num (Finite True ''1224'' 3)) (Num (Finite False ''1'' 2)) ''KM''
         (shadowedStore, 0) = (fst (findByGeo_loop exampleEnv exampleKeys [''5''] [] st1), st1, 2)"
    and fr: "\<forall>m. vals st1 (getSiteHashKey exampleKeys m) = vals shadowedStore (getSiteHashKey exampleKeys m)"
    by blast
  from fr have v: "vals st1 (getSiteHashKey exampleKeys ''5'') = Some (RHash shadowedHash)"
    by (simp add: exampleKeys_simps shadowedStore_hash)
  then have a: "\<forall>z. vals st1 (getSiteHashKey exampleKeys ''5'') \<noteq> Some (RZSet z)"
    and b: "storedSite st1 (getSiteHashKey exampleKeys ''5'') = Some (hashObject shadowedHash)"
    using shadowedHash_nonempty by (simp_all add: storedSite_def)
  have l: "findByGeo_loop exampleEnv exampleKeys [''5''] [] st1 = (Inl TypeError, st1)"
    by (rule findByGeo_loop_throws [OF a b shadowedHash_object])
  have h: "vals shadowedStore (getSiteHashKey exampleKeys ''5'') = Some (RHash shadowedHash)"
    by (simp add: exampleKeys_simps shadowedStore_hash)
  show ?thesis
    unfolding c l using geo rank h by simp
qed

text \<open>
  Claim C1, amended. Let the two temporary keys be fresh (the first one absent from the
  store, different from the second and from the key of the capacity ranking, and no
  site key equal to either), let the geo index hold each member once, let the store
  accept the query with the radius test \<open>inside\<close>, let no site key hold a sorted set,
  and let no hash of a site that passes the radius test and has a score of at least
  \<open>0.2\<close> in the capacity ranking have a field named \<open>hasOwnProperty\<close>. Then
  \<open>findByGeoWithExcessCapacity\<close> returns normally, and the sites it returns are the
  decoded hashes, where there is one, of a list of identifiers without repetition whose
  elements are exactly the members of the geo index that pass the radius test and have
  a score of at least \<open>0.2\<close> in the capacity ranking. The set stored under the second
  temporary key holds members inside the radius only, each with its score of the
  capacity ranking (weights \<open>0\<close> and \<open>1\<close>): a member outside the radius is not in it,
  whatever its score.
\<close>

theorem excess_capacity_exact:
  assumes t: "getTemporaryKey kg g = (t1, g1)" "getTemporaryKey kg g1 = (t2, g2)"
    and fresh: "vals st t1 = None" "t1 \<noteq> t2" "t1 \<noteq> getCapacityRankingKey kg"
    and geo: "loadZSet st (getSiteGeoKey kg) = Some geo" "distinct (map fst geo)"
    and rank: "loadZSet st (getCapacityRankingKey kg) = Some rank"
    and test: "georadiusTest en (toString lng) (toString lat) (toString radius) (toLowerCase u) = Some inside"
    and keys: "\<forall>m. getSiteHashKey kg m \<noteq> t1 \<and> getSiteHashKey kg m \<noteq> t2"
    and hashes: "\<forall>m z. vals st (getSiteHashKey kg m) \<noteq> Some (RZSet z)"
    and plain: "\<forall>m p s h. map_of geo m = Some p \<and> inside p \<and> map_of rank m = Some s \<and> 0.2 \<le> s \<and>
        storedSite st (getSiteHashKey kg m) = Some h \<longrightarrow> h ''hasOwnProperty'' = None"
  shows "\<exists>ids sites st' z2.
      findByGeoWithExcessCapacity en kg lat lng radius u (st, g) = (Inr sites, st', g2) \<and>
      distinct ids \<and>
      set ids = {m. \<exists>p s. map_of geo m = Some p \<and> inside p \<and>
                       map_of rank m = Some s \<and> 0.2 \<le> s} \<and>
      map Inr sites = map (\<lambda>h. remap (toDouble en) (Some h))
        (List.map_filter (\<lambda>m. storedSite st (getSiteHashKey kg m)) ids) \<and>
      loadZSet st' t2 = Some z2 \<and>
      (\<forall>m s. (m, s) \<in> set z2 \<longrightarrow> map_of rank m = Some s \<and> (\<exists>p. map_of geo m = Some p \<and> inside p))"
proof -
  let ?z2 = "intersectWeighted (filter (\<lambda>(m, p). inside p) geo) rank 0 1"
  let ?ids = "map fst (filter (\<lambda>(m, s). capacityThreshold \<le> s) (zsetOrder ?z2))"
  have d: "distinct ?ids" by (rule excess_ids_distinct [OF geo(2)])
  have s: "set ?ids = {m. \<exists>p s. map_of geo m = Some p \<and> inside p \<and>
                       map_of rank m = Some s \<and> 0.2 \<le> s}"
    using excess_ids_set [OF geo(2), of capacityThreshold inside rank]
    by (simp add: capacityThreshold_def)
  have pl: "\<forall>m \<in> set ?ids. \<forall>h. storedSite st (getSiteHashKey kg m) = Some h \<longrightarrow> h ''hasOwnProperty'' = None"
  proof (intro ballI allI impI)
    fix m h assume "m \<in> set ?ids" and h: "storedSite st (getSiteHashKey kg m) = Some h"
    then have "m \<in> {m. \<exists>p s. map_of geo m = Some p \<and> inside p \<and>
                       map_of rank m = Some s \<and> 0.2 \<le> s}"
      unfolding s by simp
    then obtain p s where "map_of geo m = Some p" "inside p" "map_of rank m = Some s" "0.2 \<le> s"
      by blast
    with plain h show "h ''hasOwnProperty'' = None" by blast
  qed
  from findByGeoWithExcessCapacity_result [OF t fresh geo(1) rank test keys hashes refl pl]
  obtain sites st' where
    r: "findByGeoWithExcessCapacity en kg lat lng radius u (st, g) = (Inr sites, st', g2)"
      "map Inr sites = map (\<lambda>h. remap (toDouble en) (Some h))
        (List.map_filter (\<lambda>m. storedSite st (getSiteHashKey kg m)) ?ids)"
      "loadZSet st' t2 = Some ?z2"
    by blast
  have m: "(m, p) \<in> set geo \<longleftrightarrow> map_of geo m = Some p" for m p
    using geo(2) by simp
  have w: "\<forall>m s. (m, s) \<in> set ?z2 \<longrightarrow>
      map_of rank m = Some s \<and> (\<exists>p. map_of geo m = Some p \<and> inside p)"
    by (auto simp: intersectWeighted_member m [symmetric])
  from r d s w show ?thesis by blast
qed

theorem excess_capacity_exact_witness:
  "\<exists>st'.
     findByGeoWithExcessCapacity exampleEnv exampleKeys
         (Num (Finite False ''377'' 2)) (Num (Finite True ''1224'' 3)) (Num (Finite False ''1'' 2)) ''KM''
         (exampleCapacityStore, 0) = (Inr [exampleSite], st', 2) \<and>
     vals exampleCapacityStore ''sites:info:2'' = Some (RHash exampleHash2) \<and>
     vals exampleCapacityStore ''sites:info:3'' = Some (RHash exampleHash3) \<and>
     loadZSet exampleCapacityStore ''sites:geo'' = Some [(''1'', 1224), (''2'', 1225), (''3'', 1300)] \<and>
     loadZSet exampleCapacityStore ''sites:capacity:ranking'' = Some [(''1'', 0.2), (''2'', 0.1), (''3'', 0.9)] \<and>
     loadZSet st' ''tmp:1'' = Some [(''1'', 0.2), (''2'', 0.1)]"
proof -
  let ?geo = "[(''1'', 1224), (''2'', 1225), (''3'', 1300)] :: (string \<times> real) list"
  let ?rank = "[(''1'', 0.2), (''2'', 0.1), (''3'', 0.9)] :: (string \<times> real) list"
  let ?inside = "\<lambda>g :: real. \<bar>g - 1224\<bar> \<le> 10"
  have s: "toString (Num (Finite False ''377'' 2)) = ''37.7''"
      "toString (Num (Finite True ''1224'' 3)) = ''-122.4''"
      "toString (Num (Finite False ''1'' 2)) = ''10''"
    by simp_all
  have test: "georadiusTest exampleEnv (toString (Num (Finite True ''1224'' 3)))
      (toString (Num (Finite False ''377'' 2))) (toString (Num (Finite False ''1'' 2)))
      (toLowerCase ''KM'') = Some ?inside"
    unfolding s by (rule exampleEnv_test)
  have fresh: "vals exampleCapacityStore ''tmp:0'' = None" "''tmp:0'' \<noteq> ''tmp:1''"
      "''tmp:0'' \<noteq> getCapacityRankingKey exampleKeys"
    by (simp_all add: exampleCapacityStore_simps exampleKeys_simps)
  have geo: "loadZSet exampleCapacityStore (getSiteGeoKey exampleKeys) = Some ?geo" "distinct (map fst ?geo)"
    by (simp_all add: exampleCapacityStore_simps exampleKeys_simps)
  have rank: "loadZSet exampleCapacityStore (getCapacityRankingKey exampleKeys) = Some ?rank"
    by (simp add: exampleCapacityStore_simps exampleKeys_simps)
  have keys: "\<forall>m. getSiteHashKey exampleKeys m \<noteq> ''tmp:0'' \<and> getSiteHashKey exampleKeys m \<noteq> ''tmp:1''"
    by (simp add: exampleKeys_simps)
  have hashes: "\<forall>m z. vals exampleCapacityStore (getSiteHashKey exampleKeys m) \<noteq> Some (RZSet z)"
    unfolding exampleKeys_simps by (rule exampleCapacityStore_simps)
  have e: "{m. \<exists>p s. map_of ?geo m = Some p \<and> ?inside p \<and>
                       map_of ?rank m = Some s \<and> 0.2 \<le> s} = {''1''}"
    apply (auto split: if_splits)
     apply (drule spec [of _ "1 / 5"], simp)+
    done
  have plain: "\<forall>m p s h. map_of ?geo m = Some p \<and> ?inside p \<and> map_of ?rank m = Some s \<and> 0.2 \<le> s \<and>
        storedSite exampleCapacityStore (getSiteHashKey exampleKeys m) = Some h \<longrightarrow> h ''hasOwnProperty'' = None"
  proof (intro allI impI)
    fix m p s h
    assume a: "map_of ?geo m = Some p \<and> ?inside p \<and> map_of ?rank m = Some s \<and> 0.2 \<le> s \<and>
        storedSite exampleCapacityStore (getSiteHashKey exampleKeys m) = Some h"
    then have "m \<in> {m. \<exists>p s. map_of ?geo m = Some p \<and> ?inside p \<and>
                       map_of ?rank m = Some s \<and> 0.2 \<le> s}"
      by blast
    then have "m = ''1''" unfolding e by simp
    with a have "h = hashObject exampleHash"
      by (simp add: exampleKeys_simps exampleCapacityStore_simps)
    then show "h ''hasOwnProperty'' = None"
      by (simp add: hashObject_def exampleHash_def)
  qed
  from excess_capacity_exact [OF exampleKeys_temporary fresh geo rank test keys hashes plain]
  obtain ids sites st' z2 where
    r: "findByGeoWithExcessCapacity exampleEnv exampleKeys
         (Num (Finite False ''377'' 2)) (Num (Finite True ''1224'' 3)) (Num (Finite False ''1'' 2)) ''KM''
         (exampleCapacityStore, 0) = (Inr sites, st', 2)"
    and d: "distinct ids"
    and i: "set ids = {m. \<exists>p s. map_of ?geo m = Some p \<and> ?inside p \<and>
                       map_of ?rank m = Some s \<and> 0.2 \<le> s}"
    and m: "map Inr sites = map (\<lambda>h. remap (toDouble exampleEnv) (Some h))
        (List.map_filter (\<lambda>m. storedSite exampleCapacityStore (getSiteHashKey exampleKeys m)) ids)"
    by blast
  from i d have ids: "ids = [''1'']" unfolding e by (simp add: distinct_singleton_set)
  have "map Inr sites = [Inr exampleSite :: jserror + obj]"
    unfolding m ids exampleKeys_simps
    by (simp add: List.map_filter_simps exampleCapacityStore_simps remap_exampleHash del: remap.simps)
  then have m': "sites = [exampleSite]" by auto
  have ids': "[''1''] = map fst (filter (\<lambda>(m, s). capacityThreshold \<le> s)
            (zsetOrder (intersectWeighted (filter (\<lambda>(m, p). ?inside p) ?geo) ?rank 0 1)))"
    by (simp add: intersectWeighted_def List.map_filter_simps zsetOrder_def capacityThreshold_def)
  from findByGeoWithExcessCapacity_ids [OF exampleKeys_temporary fresh geo(1) rank test keys ids'] r
  have "loadZSet st' ''tmp:1'' = Some (intersectWeighted (filter (\<lambda>(m, p). ?inside p) ?geo) ?rank 0 1)"
    by auto
  then have z: "loadZSet st' ''tmp:1'' = Some [(''1'', 0.2), (''2'', 0.1)]"
    by (simp add: intersectWeighted_def List.map_filter_simps)
  have c: "findByGeoWithExcessCapacity exampleEnv exampleKeys
         (Num (Finite False ''377'' 2)) (Num (Finite True ''1224'' 3)) (Num (Finite False ''1'' 2)) ''KM''
         (exampleCapacityStore, 0) = (Inr [exampleSite], st', 2)"
    using r m' by simp
  have g: "loadZSet exampleCapacityStore ''sites:geo'' = Some ?geo"
      "loadZSet exampleCapacityStore ''sites:capacity:ranking'' = Some ?rank"
    by (rule exampleCapacityStore_simps)+
  show ?thesis
    by (intro exI [of _ st'] conjI) (rule c exampleCapacityStore_simps(6) exampleCapacityStore_simps(7) g z)+
qed

section \<open>Reads do not change site data\<close>

lemma loadZSet_nonempty: "loadZSet st k = Some z \<Longrightarrow> z \<noteq> [] \<Longrightarrow> vals st k \<noteq> None"
  by (auto simp: loadZSet_def split: option.splits)


text \<open>
  Claim C8, as stated, fails in its last clause: \<open>insert\<close> is a DAO operation, and a
  second \<open>insert\<close> of a site with the same identifier overwrites the fields of the
  stored hash. Here the \<open>panels\<close> field of the hash of site \<open>1\<close> goes from \<open>12\<close> to \<open>13\<close>.
\<close>

theorem insert_updates_existing_hash:
  "fst (insert exampleEnv exampleKeys exampleSite emptyStore) = Inr ''sites:info:1'' \<and>
   fst (insert exampleEnv exampleKeys exampleSiteMorePanels
          (snd (insert exampleEnv exampleKeys exampleSite emptyStore))) = Inr ''sites:info:1'' \<and>
   (\<exists>h1 h2.
      vals (snd (insert exampleEnv exampleKeys exampleSite emptyStore)) ''sites:info:1'' = Some (RHash h1) \<and>
      vals (snd (insert exampleEnv exampleKeys exampleSiteMorePanels
          (snd (insert exampleEnv exampleKeys exampleSite emptyStore)))) ''sites:info:1'' = Some (RHash h2) \<and>
      h1 ''panels'' = Some ''12'' \<and> h2 ''panels'' = Some ''13'' \<and> h1 \<noteq> h2)"
proof -
  let ?a = "Num (Finite False ''377'' 2)" and ?b = "Num (Finite True ''1224'' 3)"
  let ?f1 = "(exampleSite(''lat'' \<mapsto> ?a, ''lng'' \<mapsto> ?b))(''coordinate'' := None)"
  let ?f2 = "(exampleSiteMorePanels(''lat'' \<mapsto> ?a, ''lng'' \<mapsto> ?b))(''coordinate'' := None)"
  have k: "''sites:info:1'' = getSiteHashKey exampleKeys (siteId exampleSite)"
      "''sites:info:1'' = getSiteHashKey exampleKeys (siteId exampleSiteMorePanels)"
    by (simp_all add: exampleSite_facts exampleSiteMorePanels_facts exampleKeys_def)
  have g: "getSiteGeoKey exampleKeys = ''sites:geo''" by (simp add: exampleKeys_def)
  have ge: "geoEncode exampleEnv (toString ?b) (toString ?a) = Some 1224"
    using exampleEnv_geoEncode_example by simp
  have n1: "?f1 \<noteq> Map.empty" and n2: "?f2 \<noteq> Map.empty"
    by (rule flat_nonempty [of _ ?a], simp)+
  let ?h1 = "Map.empty ++ (map_option toString \<circ> ?f1)"
  let ?st1 = "emptyStore\<lparr>vals := (vals emptyStore)
       (''sites:info:1'' \<mapsto> RHash ?h1,
        ''sites:geo'' \<mapsto> RZSet (AList.update ''1'' 1224 []))\<rparr>"
  have i1: "insert exampleEnv exampleKeys exampleSite emptyStore = (Inr ''sites:info:1'', ?st1)"
    using insert_ok [OF exampleSite_flatten n1 k(1) _ exampleSite_facts(2,3,4) ge, of emptyStore]
    by (simp add: g exampleSite_facts emptyStore_def)
  let ?h2 = "?h1 ++ (map_option toString \<circ> ?f2)"
  let ?st2 = "?st1\<lparr>vals := (vals ?st1)
       (''sites:info:1'' \<mapsto> RHash ?h2,
        ''sites:geo'' \<mapsto> RZSet (AList.update ''1'' 1224 (AList.update ''1'' 1224 [])))\<rparr>"
  have i2: "insert exampleEnv exampleKeys exampleSiteMorePanels ?st1 = (Inr ''sites:info:1'', ?st2)"
    using insert_ok [OF exampleSiteMorePanels_facts(1) n2 k(2) _ exampleSiteMorePanels_facts(3,4,5) ge, of ?st1]
    by (simp add: g exampleSiteMorePanels_facts emptyStore_def)
  have p1: "?h1 ''panels'' = Some ''12''"
    by (simp add: exampleSite_def)
  have p2: "?h2 ''panels'' = Some ''13''"
    by (simp add: exampleSiteMorePanels_def map_add_def)
  have ne: "?h1 \<noteq> ?h2"
  proof
    assume "?h1 = ?h2"
    then have "?h1 ''panels'' = ?h2 ''panels''" by (rule arg_cong)
    then show False unfolding p1 p2 by simp
  qed
  have v1: "vals ?st1 ''sites:info:1'' = Some (RHash ?h1)" by simp
  have v2: "vals ?st2 ''sites:info:1'' = Some (RHash ?h2)" by simp
  have s1: "snd (insert exampleEnv exampleKeys exampleSite emptyStore) = ?st1"
    unfolding i1 by (rule snd_conv)
  have a: "fst (insert exampleEnv exampleKeys exampleSite emptyStore) = Inr ''sites:info:1''"
    unfolding i1 by (rule fst_conv)
  have b: "fst (insert exampleEnv exampleKeys exampleSiteMorePanels ?st1) = Inr ''sites:info:1''"
    unfolding i2 by (rule fst_conv)
  have s2: "snd (insert exampleEnv exampleKeys exampleSiteMorePanels ?st1) = ?st2"
    unfolding i2 by (rule snd_conv)
  show ?thesis
    unfolding s1 s2
    by (intro conjI exI [of _ ?h1] exI [of _ ?h2]) (rule a b v1 v2 p1 p2 ne)+
qed

text \<open>
  Claim C8, amended. \<open>findById\<close>, \<open>findAll\<close> and \<open>findByGeo\<close> leave the whole store as
  it was. \<open>findByGeoWithExcessCapacity\<close> draws two temporary keys and changes no value
  and no expiration but theirs; each of the two that exists after the call has an
  expiration of 30 seconds, set by the batch that stored it, and the DAO has no command
  that deletes a key. So no read operation changes a site hash, the geo index or the
  capacity ranking when the temporary keys differ from their keys. \<open>insert\<close> is the one
  operation that changes site data: it writes the hash of the site and the geo index,
  where it may overwrite what an earlier \<open>insert\<close> of the same identifier stored; it
  changes no other key, no expiration, and removes no key.
\<close>

theorem reads_change_only_temporary_keys:
  assumes t: "getTemporaryKey kg g = (t1, g1)" "getTemporaryKey kg g1 = (t2, g2)"
    and r: "findByGeoWithExcessCapacity en kg lat lng radius u (st, g) = (res, st', g')"
  shows "snd (findById en kg ident st) = st \<and> snd (findAll en kg st) = st \<and>
     snd (findByGeo en kg lat lng radius u st) = st \<and>
     g' = g2 \<and>
     (\<forall>k. k \<noteq> t1 \<and> k \<noteq> t2 \<longrightarrow> vals st' k = vals st k \<and> ttl st' k = ttl st k) \<and>
     (vals st' t1 \<noteq> None \<longrightarrow> ttl st' t1 = Some 30) \<and>
     (vals st' t2 \<noteq> None \<longrightarrow> ttl st' t2 = Some 30) \<and>
     ttl (snd (insert en kg site st)) = ttl st \<and>
     (\<forall>k. k \<noteq> getSiteHashKey kg (siteId site) \<and> k \<noteq> getSiteGeoKey kg \<longrightarrow>
          vals (snd (insert en kg site st)) k = vals st k) \<and>
     (\<forall>k. vals st k \<noteq> None \<longrightarrow> vals (snd (insert en kg site st)) k \<noteq> None)"
proof -
  from findByGeoWithExcessCapacity_store [OF t r] obtain rs where
    b: "execBatch en (setOperationsPipeline kg lat lng radius u t1 t2) st = (rs, st')" and g: "g' = g2"
    by blast
  note e = setOperationsPipeline_effect [OF b]
  note i = insert_effect [of en kg site st, folded siteId_def]
  show ?thesis
    using findById_store [of en kg ident st] findAll_store [of en kg st]
      findByGeo_store [of en kg lat lng radius u st] g e i
    by blast
qed


theorem reads_change_only_temporary_keys_witness:
  "snd (findById exampleEnv exampleKeys (Num (Finite False ''1'' 1)) exampleGeoStore) = exampleGeoStore \<and>
   snd (findAll exampleEnv exampleKeys exampleGeoStore) = exampleGeoStore \<and>
   snd (findByGeo exampleEnv exampleKeys
         (Num (Finite False ''377'' 2)) (Num (Finite True ''1224'' 3)) (Num (Finite False ''1'' 2)) ''KM''
         exampleGeoStore) = exampleGeoStore \<and>
   (\<exists>res st'.
      findByGeoWithExcessCapacity exampleEnv exampleKeys
         (Num (Finite False ''377'' 2)) (Num (Finite True ''1224'' 3)) (Num (Finite False ''1'' 2)) ''KM''
         (exampleGeoStore, 0) = (res, st', 2) \<and>
      vals st' ''sites:info:1'' = vals exampleGeoStore ''sites:info:1'' \<and>
      vals st' ''sites:geo'' = vals exampleGeoStore ''sites:geo'' \<and>
      vals st' ''sites:capacity:ranking'' = vals exampleGeoStore ''sites:capacity:ranking'' \<and>
      ttl st' ''tmp:0'' = Some 30 \<and> ttl st' ''tmp:1'' = Some 30) \<and>
   vals (snd (insert exampleEnv exampleKeys exampleSite exampleGeoStore)) ''sites:capacity:ranking''
     = vals exampleGeoStore ''sites:capacity:ranking'' \<and>
   ttl (snd (insert exampleEnv exampleKeys exampleSite exampleGeoStore)) = ttl exampleGeoStore"
proof -
  let ?lat = "Num (Finite False ''377'' 2)" and ?lng = "Num (Finite True ''1224'' 3)"
  let ?radius = "Num (Finite False ''1'' 2)"
  let ?call = "findByGeoWithExcessCapacity exampleEnv exampleKeys ?lat ?lng ?radius ''KM'' (exampleGeoStore, 0)"
  let ?geo = "[(''1'', 1224), (''2'', 1225), (''3'', 1300)] :: (string \<times> real) list"
  let ?rank = "[(''1'', 0.5), (''2'', 0.1), (''3'', 0.9)] :: (string \<times> real) list"
  let ?inside = "\<lambda>g :: real. \<bar>g - 1224\<bar> \<le> 10"
  obtain res st' g' where r: "?call = (res, st', g')"
    by (cases ?call) auto
  note th = reads_change_only_temporary_keys [OF exampleKeys_temporary r,
      of "Num (Finite False ''1'' 1)" exampleSite]
  have s: "toString ?lat = ''37.7''" "toString ?lng = ''-122.4''" "toString ?radius = ''10''"
    by simp_all
  have test: "georadiusTest exampleEnv (toString ?lng) (toString ?lat) (toString ?radius)
      (toLowerCase ''KM'') = Some ?inside"
    unfolding s by (rule exampleEnv_test)
  have fresh: "vals exampleGeoStore ''tmp:0'' = None" "''tmp:0'' \<noteq> ''tmp:1''"
      "''tmp:0'' \<noteq> getCapacityRankingKey exampleKeys"
    by (simp_all add: exampleGeoStore_simps exampleKeys_simps)
  have geo: "loadZSet exampleGeoStore (getSiteGeoKey exampleKeys) = Some ?geo"
    by (simp_all add: exampleGeoStore_simps exampleKeys_simps)
  have rank: "loadZSet exampleGeoStore (getCapacityRankingKey exampleKeys) = Some ?rank"
    by (simp add: exampleGeoStore_simps exampleKeys_simps)
  have keys: "\<forall>m. getSiteHashKey exampleKeys m \<noteq> ''tmp:0'' \<and> getSiteHashKey exampleKeys m \<noteq> ''tmp:1''"
    by (simp add: exampleKeys_simps)
  from findByGeoWithExcessCapacity_ids [OF exampleKeys_temporary fresh geo rank test keys refl] r
  have l: "loadZSet st' ''tmp:1'' = Some (intersectWeighted (filter (\<lambda>(m, p). ?inside p) ?geo) ?rank 0 1)"
      "loadZSet st' ''tmp:0'' = Some (filter (\<lambda>(m, p). ?inside p) ?geo)"
    by auto
  have e1: "vals st' ''tmp:1'' \<noteq> None"
    by (rule loadZSet_nonempty [OF l(1)]) (simp add: intersectWeighted_def List.map_filter_simps)
  have e0: "vals st' ''tmp:0'' \<noteq> None"
    by (rule loadZSet_nonempty [OF l(2)]) simp
  from th have g: "g' = 2" by blast
  from th e0 e1 have tt: "ttl st' ''tmp:0'' = Some 30" "ttl st' ''tmp:1'' = Some 30" by blast+
  from th have fr: "\<forall>k. k \<noteq> ''tmp:0'' \<and> k \<noteq> ''tmp:1'' \<longrightarrow> vals st' k = vals exampleGeoStore k"
    by blast
  have v: "vals st' ''sites:info:1'' = vals exampleGeoStore ''sites:info:1''"
      "vals st' ''sites:geo'' = vals exampleGeoStore ''sites:geo''"
      "vals st' ''sites:capacity:ranking'' = vals exampleGeoStore ''sites:capacity:ranking''"
    using fr by simp_all
  from th have rd: "snd (findById exampleEnv exampleKeys (Num (Finite False ''1'' 1)) exampleGeoStore) = exampleGeoStore"
      "snd (findAll exampleEnv exampleKeys exampleGeoStore) = exampleGeoStore"
      "snd (findByGeo exampleEnv exampleKeys ?lat ?lng ?radius ''KM'' exampleGeoStore) = exampleGeoStore"
      "ttl (snd (insert exampleEnv exampleKeys exampleSite exampleGeoStore)) = ttl exampleGeoStore"
    by blast+
  from th have "\<forall>k. k \<noteq> getSiteHashKey exampleKeys (siteId exampleSite) \<and> k \<noteq> getSiteGeoKey exampleKeys \<longrightarrow>
          vals (snd (insert exampleEnv exampleKeys exampleSite exampleGeoStore)) k = vals exampleGeoStore k"
    by blast
  then have iv: "vals (snd (insert exampleEnv exampleKeys exampleSite exampleGeoStore)) ''sites:capacity:ranking''
     = vals exampleGeoStore ''sites:capacity:ranking''"
    by (simp add: exampleKeys_simps)
  have c: "?call = (res, st', 2)" using r g by simp
  show ?thesis
    by (intro conjI exI [of _ res] exI [of _ st']) (rule rd c v tt iv)+
qed

section \<open>All sites\<close>




























end
